theory Spec2Isabelle
  imports Complex_Main "HOL-Library.Sublist"
begin

section \<open>JavaScript values used by the server\<close>

text \<open>
  Strings are lists of 8-bit characters: JavaScript strings whose code units are below 256.
  In that range the white space recognised by \<^verbatim>\<open>\s\<close> and by \<^verbatim>\<open>String.prototype.trim\<close>
  is tab, line feed, vertical tab, form feed, carriage return, space and no-break space.
\<close>

definition js_space :: "char \<Rightarrow> bool" where
  "js_space c \<longleftrightarrow>
     c \<in> set [CHR 0x09, CHR 0x0A, CHR 0x0B, CHR 0x0C, CHR 0x0D, CHR 0x20, CHR 0xA0]"

definition js_trim :: "string \<Rightarrow> string" where
  "js_trim s = rev (dropWhile js_space (rev (dropWhile js_space s)))"

text \<open>\<^verbatim>\<open>s.split(c)\<close> for a one-character separator: never empty, keeps empty pieces.\<close>

fun split_on :: "char \<Rightarrow> string \<Rightarrow> string list" where
  "split_on c [] = [[]]"
| "split_on c (x # xs) =
     (if x = c then [] # split_on c xs
      else (case split_on c xs of w # ws \<Rightarrow> (x # w) # ws | [] \<Rightarrow> [[x]]))"

text \<open>\<^verbatim>\<open>ws.join(sep)\<close>.\<close>

fun join_with :: "string \<Rightarrow> string list \<Rightarrow> string" where
  "join_with sep [] = []"
| "join_with sep [w] = w"
| "join_with sep (w # v # ws) = w @ sep @ join_with sep (v # ws)"

text \<open>
  \<^verbatim>\<open>xs.slice(s, e)\<close>: a negative index counts from the end, and both indices are clamped
  to the array.
\<close>

definition js_slice :: "'a list \<Rightarrow> int \<Rightarrow> int \<Rightarrow> 'a list" where
  "js_slice xs s e =
     (let n = int (length xs);
          k = (if s < 0 then max (n + s) 0 else min s n);
          f = (if e < 0 then max (n + e) 0 else min e n)
      in take (nat (f - k)) (drop (nat k) xs))"

subsection \<open>Double-precision arithmetic\<close>

text \<open>
  JavaScript numbers are IEEE 754 doubles. A double is modelled by the rational it denotes;
  \<open>to_double\<close> rounds a rational to the nearest value with a 53-bit significand, ties to
  even (magnitudes are taken to lie in the normal range, where no overflow or underflow
  occurs). Sums and differences of integers below \<open>2^53\<close> are exact and are written without
  rounding.
\<close>

function bit_length :: "int \<Rightarrow> int" where
  "bit_length n = (if n \<le> 0 then 0 else 1 + bit_length (n div 2))"
  by pat_completeness auto
termination
  by (relation "measure nat") auto

declare bit_length.simps [simp del]

definition floor_log2 :: "rat \<Rightarrow> int" where
  "floor_log2 x =
     (let (p, q) = quotient_of x;
          l = bit_length p - bit_length q
      in if rat_of_int q * (2 powi l) \<le> rat_of_int p then l else l - 1)"

definition round_half_even :: "rat \<Rightarrow> int" where
  "round_half_even x =
     (let f = \<lfloor>x\<rfloor>; d = x - rat_of_int f
      in if d < 1 / 2 then f
         else if 1 / 2 < d then f + 1
         else if even f then f else f + 1)"

definition to_double :: "rat \<Rightarrow> rat" where
  "to_double x =
     (if x = 0 then 0
      else let e = floor_log2 \<bar>x\<bar> - 52;
               m = round_half_even (\<bar>x\<bar> / (2 powi e))
           in sgn x * rat_of_int m * (2 powi e))"

text \<open>\<^verbatim>\<open>a || b\<close> where \<open>a\<close> is a field that is absent or a number, or absent or a string.\<close>

definition num_or :: "rat option \<Rightarrow> rat \<Rightarrow> rat" where
  "num_or a b = (case a of Some v \<Rightarrow> if v \<noteq> 0 then v else b | None \<Rightarrow> b)"

definition str_or :: "string option \<Rightarrow> string \<Rightarrow> string" where
  "str_or a b = (case a of Some v \<Rightarrow> if v \<noteq> [] then v else b | None \<Rightarrow> b)"

section \<open>Transcript segmenter\<close>

text \<open>
  A transcript payload is a string, an array of segment objects, or something else.
  A segment object may carry any of the fields \<^verbatim>\<open>start_time\<close>, \<^verbatim>\<open>start\<close>,
  \<^verbatim>\<open>end_time\<close>, \<^verbatim>\<open>end\<close>, \<^verbatim>\<open>text\<close>, \<^verbatim>\<open>words\<close>.
\<close>

record segment =
  f_start_time :: "rat option"
  f_start :: "rat option"
  f_end_time :: "rat option"
  f_end :: "rat option"
  f_text :: "string option"
  f_words :: "string option"

datatype transcript_payload =
  FlatText string
| TimedSegments "segment list"
| OtherShape

text \<open>\<^verbatim>\<open>Math.floor((timestampSeconds / 60) * 150)\<close>, each operation rounded to a double.\<close>

definition approximateWordIndex :: "int \<Rightarrow> int" where
  "approximateWordIndex timestampSeconds =
     \<lfloor>to_double (to_double (rat_of_int timestampSeconds / 60) * 150)\<rfloor>"

definition segStart :: "segment \<Rightarrow> rat" where
  "segStart seg = num_or (f_start_time seg) (num_or (f_start seg) 0)"

definition segEnd :: "segment \<Rightarrow> rat" where
  "segEnd seg = num_or (f_end_time seg) (num_or (f_end seg) (to_double (segStart seg + 5)))"

definition segText :: "segment \<Rightarrow> string" where
  "segText seg = str_or (f_text seg) (str_or (f_words seg) [])"

fun extractTranscriptSegment :: "transcript_payload \<Rightarrow> int \<Rightarrow> int \<Rightarrow> string option" where
  "extractTranscriptSegment (FlatText transcript) timestampSeconds duration =
     (let words = split_on CHR '' '' transcript;
          startIndex = max 0 (approximateWordIndex timestampSeconds - 25);
          endIndex = min (int (length words)) (approximateWordIndex timestampSeconds + 75)
      in Some (join_with '' '' (js_slice words startIndex endIndex)))"
| "extractTranscriptSegment (TimedSegments transcript) timestampSeconds duration =
     (let relevantSegments =
            filter (\<lambda>seg. rat_of_int (timestampSeconds - 5) \<le> segStart seg \<and>
                         segEnd seg \<le> rat_of_int (timestampSeconds + duration + 5))
                   transcript
      in Some (join_with '' '' (map segText relevantSegments)))"
| "extractTranscriptSegment OtherShape timestampSeconds duration = None"

subsection \<open>The segmenter as the specification words it\<close>

text \<open>
  The specification's reading of the flat-string mode: the tokens are the maximal runs of
  non-white-space characters, and the word index is \<open>\<lfloor>t / 60 * 150\<rfloor>\<close>.
\<close>

fun whitespace_tokens_aux :: "string \<Rightarrow> string \<Rightarrow> string list" where
  "whitespace_tokens_aux cur [] = (if cur = [] then [] else [rev cur])"
| "whitespace_tokens_aux cur (x # xs) =
     (if js_space x
      then (if cur = [] then whitespace_tokens_aux [] xs
            else rev cur # whitespace_tokens_aux [] xs)
      else whitespace_tokens_aux (x # cur) xs)"

definition whitespace_tokens :: "string \<Rightarrow> string list" where
  "whitespace_tokens s = whitespace_tokens_aux [] s"

definition spec_flat_segment :: "string \<Rightarrow> int \<Rightarrow> string" where
  "spec_flat_segment s t =
     (let toks = whitespace_tokens s;
          wordIndex = \<lfloor>rat_of_int t / 60 * 150\<rfloor>
      in join_with '' ''
           (js_slice toks (max 0 (wordIndex - 25)) (min (int (length toks)) (wordIndex + 75))))"

text \<open>
  The specification's reading of the segmented mode: a segment is kept when its half-open
  interval \<open>[start, end)\<close> meets the closed window \<open>[t - 5, t + w + 5]\<close>.
\<close>

definition overlaps_window :: "int \<Rightarrow> int \<Rightarrow> segment \<Rightarrow> bool" where
  "overlaps_window t w seg \<longleftrightarrow>
     segStart seg \<le> rat_of_int (t + w + 5) \<and> rat_of_int (t - 5) < segEnd seg"

definition spec_timed_segment :: "segment list \<Rightarrow> int \<Rightarrow> int \<Rightarrow> string" where
  "spec_timed_segment segs t w = join_with '' '' (map segText (filter (overlaps_window t w) segs))"

text \<open>What the code keeps: the segments that lie inside the window.\<close>

definition within_window :: "int \<Rightarrow> int \<Rightarrow> segment \<Rightarrow> bool" where
  "within_window t w seg \<longleftrightarrow>
     rat_of_int t - 5 \<le> segStart seg \<and> segEnd seg \<le> rat_of_int t + rat_of_int w + 5"

definition plain_segment :: "rat \<Rightarrow> rat \<Rightarrow> string \<Rightarrow> segment" where
  "plain_segment a b txt =
     \<lparr>f_start_time = None, f_start = Some a, f_end_time = None, f_end = Some b,
      f_text = Some txt, f_words = None\<rparr>"

section \<open>Summarizer: parsing the model's reply\<close>

text \<open>
  The character class of the bullet markers is written in the source file as
  \<^verbatim>\<open>[-\<close>, three non-ASCII characters, \<^verbatim>\<open>*]\<close>; the file's bytes decode to the
  characters \<^verbatim>\<open>-\<close>, U+201A, U+00C4, U+00A2 and \<^verbatim>\<open>*\<close>. U+201A is not an 8-bit
  character, so over the strings modelled here the class has the four members below.
\<close>

definition is_bullet_marker :: "char \<Rightarrow> bool" where
  "is_bullet_marker c \<longleftrightarrow> c \<in> set [CHR ''-'', CHR 0xC4, CHR 0xA2, CHR ''*'']"

definition is_digit :: "char \<Rightarrow> bool" where
  "is_digit c \<longleftrightarrow> c \<in> set ''0123456789''"

text \<open>\<^verbatim>\<open>s.match(/^[-...*]\s/)\<close>: a marker, then one white-space character.\<close>

fun matches_bullet :: "string \<Rightarrow> bool" where
  "matches_bullet (c # d # rest) = (is_bullet_marker c \<and> js_space d)"
| "matches_bullet s = False"

text \<open>\<^verbatim>\<open>s.match(/^\d+\.\s/)\<close>: one or more digits, a full stop, one white-space character.\<close>

definition matches_numbered :: "string \<Rightarrow> bool" where
  "matches_numbered s =
     (takeWhile is_digit s \<noteq> [] \<and>
      (case dropWhile is_digit s of
         c # d # rest \<Rightarrow> c = CHR ''.'' \<and> js_space d
       | _ \<Rightarrow> False))"

text \<open>
  \<^verbatim>\<open>line.replace(/^[-...*\d.]\s*/, '')\<close>: when the first character is a marker, a digit or
  a full stop, that one character and the white space after it are removed.
\<close>

fun strip_marker :: "string \<Rightarrow> string" where
  "strip_marker [] = []"
| "strip_marker (c # rest) =
     (if is_bullet_marker c \<or> is_digit c \<or> c = CHR ''.''
      then dropWhile js_space rest else c # rest)"

text \<open>The block \<^verbatim>\<open>// Parse bullet points\<close> of \<^verbatim>\<open>summarizeTranscript\<close>, later revision.\<close>

definition parse_bullet_points :: "string \<Rightarrow> string list" where
  "parse_bullet_points content =
     (let bullets =
            take 3
              (filter (\<lambda>line. 0 < length line)
                 (map (\<lambda>line. js_trim (strip_marker line))
                    (filter (\<lambda>line. matches_bullet (js_trim line) \<or>
                                    matches_numbered (js_trim line))
                       (split_on CHR 0x0A content))))
      in if 0 < length bullets then bullets else [js_trim content])"

text \<open>The same block in the earlier revision, which has no filter on the length.\<close>

definition parse_bullet_points_rev1 :: "string \<Rightarrow> string list" where
  "parse_bullet_points_rev1 content =
     (let bullets =
            take 3
              (map (\<lambda>line. js_trim (strip_marker line))
                 (filter (\<lambda>line. matches_bullet (js_trim line) \<or>
                                 matches_numbered (js_trim line))
                    (split_on CHR 0x0A content)))
      in if 0 < length bullets then bullets else [js_trim content])"

section \<open>The outside world\<close>

text \<open>
  The server acts on a directory of temporary files and on external services. The world
  holds the files (a path and the size of the file there) and the list of external calls
  made so far, oldest first. What the services and subprocesses answer during one run is
  fixed by a record of replies. A throw is a left injection carrying the error's message.
\<close>

type_synonym path = string

datatype call =
  SearchCall string
| EpisodeCall string
| ExecCall string
| TranscribeCall path
| CompletionCall string
| LogCall

record world =
  files :: "path \<rightharpoonup> int"
  calls :: "call list"

datatype 'a outcome = Threw string | Returned 'a

text \<open>
  A run of a subprocess: whether it exits with an error, and the size of the file it leaves
  at its output path when it writes one. A subprocess touches no other path.
\<close>

record run =
  exit_error :: "string option"
  written :: "int option"

definition execAsync :: "string \<Rightarrow> path \<Rightarrow> run \<Rightarrow> world \<Rightarrow> (string + unit) \<times> world" where
  "execAsync command out r w =
     ((case exit_error r of None \<Rightarrow> Inr () | Some m \<Rightarrow> Inl m),
      w\<lparr>files := (case written r of None \<Rightarrow> files w | Some n \<Rightarrow> (files w)(out \<mapsto> n)),
        calls := calls w @ [ExecCall command]\<rparr>)"

definition fs_stat :: "path \<Rightarrow> world \<Rightarrow> string + int" where
  "fs_stat p w = (case files w p of None \<Rightarrow> Inl (''ENOENT: no such file or directory, stat '' @ p)
                  | Some n \<Rightarrow> Inr n)"

definition fs_unlink :: "path \<Rightarrow> world \<Rightarrow> (string + unit) \<times> world" where
  "fs_unlink p w =
     (case files w p of
        None \<Rightarrow> (Inl (''ENOENT: no such file or directory, unlink '' @ p), w)
      | Some n \<Rightarrow> (Inr (), w\<lparr>files := (files w)(p := None)\<rparr>))"

definition fs_rename :: "path \<Rightarrow> path \<Rightarrow> world \<Rightarrow> (string + unit) \<times> world" where
  "fs_rename a b w =
     (case files w a of
        None \<Rightarrow> (Inl (''ENOENT: no such file or directory, rename '' @ a), w)
      | Some n \<Rightarrow> (Inr (), w\<lparr>files := ((files w)(a := None))(b \<mapsto> n)\<rparr>))"

text \<open>\<^verbatim>\<open>cleanupTempFiles\<close>: each unlink is tried, a failure is logged and skipped.\<close>

fun cleanupTempFiles :: "path list \<Rightarrow> world \<Rightarrow> world" where
  "cleanupTempFiles [] w = w"
| "cleanupTempFiles (file # rest) w = cleanupTempFiles rest (snd (fs_unlink file w))"

text \<open>Decimal digits of an integer, as a template literal prints it.\<close>

function decimal_nonneg :: "int \<Rightarrow> string" where
  "decimal_nonneg n =
     (if n < 10 then [char_of (48 + n)]
      else decimal_nonneg (n div 10) @ [char_of (48 + n mod 10)])"
  by pat_completeness auto
termination
  by (relation "measure nat") auto

declare decimal_nonneg.simps [simp del]

definition decimal :: "int \<Rightarrow> string" where
  "decimal n = (if n < 0 then CHR ''-'' # decimal_nonneg (- n) else decimal_nonneg n)"

definition quoted :: "string \<Rightarrow> string" where
  "quoted s = [CHR 0x22] @ s @ [CHR 0x22]"

definition TEMP_DIR :: path where
  "TEMP_DIR = ''temp''"

definition path_join :: "path \<Rightarrow> string \<Rightarrow> path" where
  "path_join dir name = dir @ ''/'' @ name"

text \<open>What the world answers during one run.\<close>

record ('e, 't) replies =
  search_reply :: "'e list outcome"
  episode_reply :: "'t option outcome"
  now :: int
  ytdlp_run :: run
  curl_run :: run
  ffmpeg_run :: run
  whisper_reply :: "string outcome"
  chat_reply :: "string outcome"

section \<open>Audio fetcher\<close>

definition fullAudioPath :: "int \<Rightarrow> path" where
  "fullAudioPath timestamp = path_join TEMP_DIR (''full_'' @ decimal timestamp @ ''.mp3'')"

definition tempAudioPath :: "int \<Rightarrow> path" where
  "tempAudioPath timestamp = path_join TEMP_DIR (''audio_'' @ decimal timestamp @ ''.mp3'')"

definition snippetPath :: "int \<Rightarrow> path" where
  "snippetPath timestamp = path_join TEMP_DIR (''snippet_'' @ decimal timestamp @ ''.mp3'')"

definition curlCmd :: "path \<Rightarrow> string \<Rightarrow> string" where
  "curlCmd out audioUrl =
     ''curl -L -A '' @
     quoted ''Mozilla/5.0 (Macintosh; Intel Mac OS X 10_15_7) AppleWebKit/537.36'' @
     '' -o '' @ quoted out @ '' '' @ quoted audioUrl"

definition ffmpegCmd :: "int \<Rightarrow> path \<Rightarrow> int \<Rightarrow> path \<Rightarrow> string" where
  "ffmpegCmd startTime inp totalDuration out =
     ''ffmpeg -y -ss '' @ decimal startTime @ '' -i '' @ quoted inp @ '' -t '' @
     decimal totalDuration @ '' -c:a libmp3lame -q:a 4 -loglevel error '' @ quoted out"

text \<open>The body of the \<^verbatim>\<open>try\<close> block of \<^verbatim>\<open>extractAudioSnippet\<close>, later revision.\<close>

definition download_and_trim ::
  "('e, 't) replies \<Rightarrow> string \<Rightarrow> int \<Rightarrow> int \<Rightarrow> int \<Rightarrow> world \<Rightarrow> (string + path) \<times> world" where
  "download_and_trim env audioUrl startTime totalDuration timestamp w =
     (case execAsync (curlCmd (fullAudioPath timestamp) audioUrl)
             (fullAudioPath timestamp) (curl_run env) w of
        (Inl m, w1) \<Rightarrow> (Inl m, w1)
      | (Inr u, w1) \<Rightarrow>
          (case fs_stat (fullAudioPath timestamp) w1 of
             Inl m \<Rightarrow> (Inl m, w1)
           | Inr downloadSize \<Rightarrow>
               if downloadSize < 10000 then (Inl ''Downloaded file too small'', w1)
               else
                 (case execAsync
                         (ffmpegCmd startTime (fullAudioPath timestamp) totalDuration
                            (snippetPath timestamp))
                         (snippetPath timestamp) (ffmpeg_run env) w1 of
                    (Inl m, w2) \<Rightarrow> (Inl m, w2)
                  | (Inr u, w2) \<Rightarrow>
                      (let w3 = snd (fs_unlink (fullAudioPath timestamp) w2)
                       in case fs_stat (snippetPath timestamp) w3 of
                            Inl m \<Rightarrow> (Inl m, w3)
                          | Inr snippetSize \<Rightarrow>
                              if snippetSize < 1000
                              then (Inl ''Audio snippet too small - extraction may have failed'',
                                    w3)
                              else (Inr (snippetPath timestamp), w3)))))"

definition extractAudioSnippet ::
  "('e, 't) replies \<Rightarrow> string \<Rightarrow> int \<Rightarrow> int \<Rightarrow> world \<Rightarrow> (string + path) \<times> world" where
  "extractAudioSnippet env audioUrl timestampSeconds duration w =
     (let timestamp = now env;
          startTime = max 0 (timestampSeconds - 5);
          totalDuration = duration + 10
      in case download_and_trim env audioUrl startTime totalDuration timestamp w of
           (Inr p, w') \<Rightarrow> (Inr p, w')
         | (Inl m, w') \<Rightarrow>
             (Inl (''Failed to extract audio snippet: '' @ m),
              cleanupTempFiles [fullAudioPath timestamp, snippetPath timestamp] w'))"

text \<open>The earlier revision: yt-dlp first, curl and ffmpeg when yt-dlp fails.\<close>

definition ytdlpCmd :: "int \<Rightarrow> int \<Rightarrow> path \<Rightarrow> string \<Rightarrow> string" where
  "ytdlpCmd startTime totalDuration out audioUrl =
     ''yt-dlp -x --audio-format mp3 --postprocessor-args '' @
     quoted (''-ss '' @ decimal startTime @ '' -t '' @ decimal totalDuration) @
     '' -o '' @ quoted out @ '' '' @ quoted audioUrl"

definition curlCmd_rev1 :: "path \<Rightarrow> string \<Rightarrow> string" where
  "curlCmd_rev1 out audioUrl = ''curl -L -o '' @ quoted out @ '' '' @ quoted audioUrl"

definition ffmpegCmd_rev1 :: "int \<Rightarrow> path \<Rightarrow> int \<Rightarrow> path \<Rightarrow> string" where
  "ffmpegCmd_rev1 startTime inp totalDuration out =
     ''ffmpeg -y -ss '' @ decimal startTime @ '' -i '' @ quoted inp @ '' -t '' @
     decimal totalDuration @ '' -c:a libmp3lame -q:a 4 '' @ quoted out"

definition download_and_trim_rev1 ::
  "('e, 't) replies \<Rightarrow> string \<Rightarrow> int \<Rightarrow> int \<Rightarrow> int \<Rightarrow> world \<Rightarrow> (string + path) \<times> world" where
  "download_and_trim_rev1 env audioUrl startTime totalDuration timestamp w =
     (case execAsync (ytdlpCmd startTime totalDuration (tempAudioPath timestamp) audioUrl)
             (tempAudioPath timestamp) (ytdlp_run env) w of
        (Inl ytdlpError, w1) \<Rightarrow>
          (case execAsync (curlCmd_rev1 (tempAudioPath timestamp) audioUrl)
                  (tempAudioPath timestamp) (curl_run env) w1 of
             (Inl m, w2) \<Rightarrow> (Inl m, w2)
           | (Inr u, w2) \<Rightarrow>
               (case execAsync
                       (ffmpegCmd_rev1 startTime (tempAudioPath timestamp) totalDuration
                          (snippetPath timestamp))
                       (snippetPath timestamp) (ffmpeg_run env) w2 of
                  (Inl m, w3) \<Rightarrow> (Inl m, w3)
                | (Inr u, w3) \<Rightarrow>
                    (Inr (snippetPath timestamp),
                     snd (fs_unlink (tempAudioPath timestamp) w3))))
      | (Inr u, w1) \<Rightarrow>
          (case fs_rename (tempAudioPath timestamp) (snippetPath timestamp) w1 of
             (Inl m, w2) \<Rightarrow> (Inl m, w2)
           | (Inr u, w2) \<Rightarrow> (Inr (snippetPath timestamp), w2)))"

definition extractAudioSnippet_rev1 ::
  "('e, 't) replies \<Rightarrow> string \<Rightarrow> int \<Rightarrow> int \<Rightarrow> world \<Rightarrow> (string + path) \<times> world" where
  "extractAudioSnippet_rev1 env audioUrl timestampSeconds duration w =
     (let timestamp = now env;
          startTime = max 0 (timestampSeconds - 5);
          totalDuration = duration + 10
      in case download_and_trim_rev1 env audioUrl startTime totalDuration timestamp w of
           (Inr p, w') \<Rightarrow> (Inr p, w')
         | (Inl m, w') \<Rightarrow>
             (Inl ''Failed to extract audio snippet'',
              cleanupTempFiles [tempAudioPath timestamp, snippetPath timestamp] w'))"

section \<open>Episode resolver\<close>

text \<open>One item of the search service's result list, and the episode the resolver returns.\<close>

record raw_episode =
  r_id :: string
  r_title_original :: string
  r_podcast_title_original :: "string option"
  r_audio :: "string option"
  r_thumbnail :: "string option"
  r_description_original :: "string option"
  r_transcript :: "transcript_payload option"

record episode =
  e_id :: string
  e_title :: string
  e_showName :: string
  e_audioUrl :: "string option"
  e_thumbnail :: "string option"
  e_description :: "string option"
  e_hasTranscript :: bool
  e_transcript :: "transcript_payload option"

type_synonym env = "(raw_episode, transcript_payload) replies"

text \<open>Truthiness of a transcript value: every array or object, and every non-empty string.\<close>

definition payload_truthy :: "transcript_payload option \<Rightarrow> bool" where
  "payload_truthy t =
     (case t of None \<Rightarrow> False | Some (FlatText s) \<Rightarrow> s \<noteq> [] | Some p \<Rightarrow> True)"

definition str_truthy :: "string option \<Rightarrow> bool" where
  "str_truthy t = (case t of None \<Rightarrow> False | Some s \<Rightarrow> s \<noteq> [])"

definition toLowerCase_char :: "char \<Rightarrow> char" where
  "toLowerCase_char c =
     (let n = of_char c :: int
      in if (65 \<le> n \<and> n \<le> 90) \<or> (192 \<le> n \<and> n \<le> 222 \<and> n \<noteq> 215)
         then char_of (n + 32) else c)"

definition toLowerCase :: "string \<Rightarrow> string" where
  "toLowerCase s = map toLowerCase_char s"

text \<open>\<^verbatim>\<open>a.includes(b)\<close>.\<close>

definition js_includes :: "string \<Rightarrow> string \<Rightarrow> bool" where
  "js_includes a b = sublist b a"

definition to_episode :: "raw_episode \<Rightarrow> string \<Rightarrow> episode" where
  "to_episode ep showName =
     \<lparr>e_id = r_id ep,
      e_title = r_title_original ep,
      e_showName = str_or (r_podcast_title_original ep) showName,
      e_audioUrl = r_audio ep,
      e_thumbnail = r_thumbnail ep,
      e_description = r_description_original ep,
      e_hasTranscript = payload_truthy (r_transcript ep),
      e_transcript = (if payload_truthy (r_transcript ep) then r_transcript ep else None)\<rparr>"

definition searchListenNotes ::
  "env \<Rightarrow> string \<Rightarrow> string \<Rightarrow> world \<Rightarrow> (string + episode option) \<times> world" where
  "searchListenNotes env title showName w =
     (let query = (if showName \<noteq> [] then quoted showName @ '' '' @ title else title);
          w' = w\<lparr>calls := calls w @ [SearchCall query]\<rparr>
      in case search_reply env of
           Threw m \<Rightarrow> (Inl ''Failed to search for podcast episode'', w')
         | Returned results \<Rightarrow>
             (case results of
                [] \<Rightarrow> (Inr None, w')
              | first # others \<Rightarrow>
                  (let showNameLower = toLowerCase showName;
                       matchingEpisode =
                         find (\<lambda>ep.
                                 let podcastName =
                                       toLowerCase (str_or (r_podcast_title_original ep) [])
                                 in js_includes podcastName showNameLower \<or>
                                    js_includes showNameLower podcastName)
                              results;
                       episode =
                         (if showName \<noteq> []
                          then (case matchingEpisode of Some ep \<Rightarrow> ep | None \<Rightarrow> first)
                          else first)
                   in (Inr (Some (to_episode episode showName)), w'))))"

definition searchListenNotes_rev1 ::
  "env \<Rightarrow> string \<Rightarrow> string \<Rightarrow> world \<Rightarrow> (string + episode option) \<times> world" where
  "searchListenNotes_rev1 env title showName w =
     (let query = js_trim (title @ '' '' @ showName);
          w' = w\<lparr>calls := calls w @ [SearchCall query]\<rparr>
      in case search_reply env of
           Threw m \<Rightarrow> (Inl ''Failed to search for podcast episode'', w')
         | Returned results \<Rightarrow>
             (case results of
                [] \<Rightarrow> (Inr None, w')
              | first # others \<Rightarrow> (Inr (Some (to_episode first showName)), w')))"

text \<open>\<^verbatim>\<open>getEpisodeTranscript\<close>: an error of the service is logged and gives \<^verbatim>\<open>null\<close>.\<close>

definition getEpisodeTranscript ::
  "env \<Rightarrow> string \<Rightarrow> world \<Rightarrow> transcript_payload option \<times> world" where
  "getEpisodeTranscript env episodeId w =
     (let w' = w\<lparr>calls := calls w @ [EpisodeCall episodeId]\<rparr>
      in case episode_reply env of
           Threw m \<Rightarrow> (None, w')
         | Returned t \<Rightarrow> (if payload_truthy t then t else None, w'))"

section \<open>Speech to text and summarizer\<close>

definition transcribeWithWhisper :: "env \<Rightarrow> path \<Rightarrow> world \<Rightarrow> (string + string) \<times> world" where
  "transcribeWithWhisper env audioPath w =
     (case fs_stat audioPath w of
        Inl m \<Rightarrow> (Inl (''Failed to transcribe audio: '' @ m), w)
      | Inr stats \<Rightarrow>
          (let w' = w\<lparr>calls := calls w @ [TranscribeCall audioPath]\<rparr>
           in case whisper_reply env of
                Threw m \<Rightarrow> (Inl (''Failed to transcribe audio: '' @ m), w')
              | Returned text \<Rightarrow> (Inr text, w')))"

text \<open>
  The earlier revision opens the file while it sends the request; a missing file makes
  the request fail.
\<close>

definition transcribeWithWhisper_rev1 ::
  "env \<Rightarrow> path \<Rightarrow> world \<Rightarrow> (string + string) \<times> world" where
  "transcribeWithWhisper_rev1 env audioPath w =
     (let w' = w\<lparr>calls := calls w @ [TranscribeCall audioPath]\<rparr>
      in case fs_stat audioPath w of
           Inl m \<Rightarrow> (Inl ''Failed to transcribe audio'', w')
         | Inr stats \<Rightarrow>
             (case whisper_reply env of
                Threw m \<Rightarrow> (Inl ''Failed to transcribe audio'', w')
              | Returned text \<Rightarrow> (Inr text, w')))"

definition user_prompt :: "string \<Rightarrow> string \<Rightarrow> string" where
  "user_prompt transcript title =
     ''Podcast Episode: '' @ quoted title @ [CHR 0x0A, CHR 0x0A] @ ''Transcript segment:'' @
     [CHR 0x0A] @ transcript @ [CHR 0x0A, CHR 0x0A] @ ''Provide 3 bullet point takeaways:''"

definition summarizeTranscript ::
  "env \<Rightarrow> string \<Rightarrow> string \<Rightarrow> world \<Rightarrow> (string + string list) \<times> world" where
  "summarizeTranscript env transcript title w =
     (let w' = w\<lparr>calls := calls w @ [CompletionCall (user_prompt transcript title)]\<rparr>
      in case chat_reply env of
           Threw m \<Rightarrow> (Inl (''Failed to summarize transcript: '' @ m), w')
         | Returned content \<Rightarrow> (Inr (parse_bullet_points content), w'))"

definition summarizeTranscript_rev1 ::
  "env \<Rightarrow> string \<Rightarrow> string \<Rightarrow> world \<Rightarrow> (string + string list) \<times> world" where
  "summarizeTranscript_rev1 env transcript title w =
     (let w' = w\<lparr>calls := calls w @ [CompletionCall (user_prompt transcript title)]\<rparr>
      in case chat_reply env of
           Threw m \<Rightarrow> (Inl ''Failed to summarize transcript'', w')
         | Returned content \<Rightarrow> (Inr (parse_bullet_points_rev1 content), w'))"

text \<open>\<^verbatim>\<open>logToSupabase\<close> is called without \<^verbatim>\<open>await\<close> and swallows its own errors.\<close>

definition logToSupabase :: "world \<Rightarrow> world" where
  "logToSupabase w = w\<lparr>calls := calls w @ [LogCall]\<rparr>"

section \<open>The handler of POST /process-insight\<close>

text \<open>
  The request body carries \<^verbatim>\<open>title\<close>, \<^verbatim>\<open>showName\<close> and \<^verbatim>\<open>spotifyUrl\<close>, each absent or
  a string, and \<^verbatim>\<open>timestamp\<close>, which may be absent or any JSON value. \<^verbatim>\<open>parseInt\<close> turns
  its argument into a string before it reads it; a number, an array or an object is given
  here by the string it is turned into: the number 95 by \<^verbatim>\<open>95\<close>, 12.5 by \<^verbatim>\<open>12.5\<close>,
  \<open>10^21\<close> by \<^verbatim>\<open>1e+21\<close>, an overflowing number by \<^verbatim>\<open>Infinity\<close>, an object by
  \<^verbatim>\<open>[object Object]\<close>.
\<close>

datatype json_value =
  JUndefined
| JNull
| JBoolean bool
| JNumber string
| JString string
| JObject string

definition js_to_string :: "json_value \<Rightarrow> string" where
  "js_to_string v =
     (case v of
        JUndefined \<Rightarrow> ''undefined''
      | JNull \<Rightarrow> ''null''
      | JBoolean b \<Rightarrow> (if b then ''true'' else ''false'')
      | JNumber printed \<Rightarrow> printed
      | JString s \<Rightarrow> s
      | JObject printed \<Rightarrow> printed)"

record request_body =
  b_title :: "string option"
  b_showName :: "string option"
  b_timestamp :: json_value
  b_spotifyUrl :: "string option"

record insight =
  d_episodeTitle :: string
  d_showName :: string
  d_thumbnail :: "string option"
  d_transcript :: "string option"
  d_summary :: "string list option"
  d_timestampSeconds :: int
  d_manualMode :: "bool option"
  d_message :: "string option"

record response =
  res_status :: int
  res_success :: bool
  res_data :: "insight option"
  res_message :: "string option"

text \<open>
  \<^verbatim>\<open>parseInt\<close> with no radix: leading white space, a sign, \<^verbatim>\<open>0x\<close> for base 16, then the
  longest run of digits; \<open>None\<close> stands for \<^verbatim>\<open>NaN\<close>. Values are taken to stay below
  \<open>2^53\<close> in magnitude, where a double holds them exactly.
\<close>

definition digit_value :: "char \<Rightarrow> int" where
  "digit_value c =
     (let n = of_char c :: int
      in if 48 \<le> n \<and> n \<le> 57 then n - 48
         else if 97 \<le> n \<and> n \<le> 122 then n - 87
         else if 65 \<le> n \<and> n \<le> 90 then n - 55
         else 36)"

definition parseInt_string :: "string \<Rightarrow> int option" where
  "parseInt_string s =
     (let s1 = dropWhile js_space s;
          (sign, s2) =
            (case s1 of
               c # r \<Rightarrow> if c = CHR ''-'' then (- 1, r)
                        else if c = CHR ''+'' then (1, r) else (1 :: int, s1)
             | [] \<Rightarrow> (1, []));
          (radix, s3) =
            (case s2 of
               a # b # r \<Rightarrow> if a = CHR ''0'' \<and> (b = CHR ''x'' \<or> b = CHR ''X'')
                            then (16, r) else (10 :: int, s2)
             | _ \<Rightarrow> (10, s2));
          ds = takeWhile (\<lambda>c. digit_value c < radix) s3
      in if ds = [] then None
         else Some (sign * foldl (\<lambda>acc c. acc * radix + digit_value c) 0 ds))"

definition parseInt :: "json_value \<Rightarrow> int option" where
  "parseInt v = parseInt_string (js_to_string v)"

definition error_response :: "int \<Rightarrow> string \<Rightarrow> response" where
  "error_response code msg =
     \<lparr>res_status = code, res_success = False, res_data = None, res_message = Some msg\<rparr>"

definition manual_response :: "string \<Rightarrow> string option \<Rightarrow> int \<Rightarrow> response" where
  "manual_response title showName timestampSeconds =
     \<lparr>res_status = 200, res_success = True,
      res_data = Some
        \<lparr>d_episodeTitle = title,
         d_showName = str_or showName ''Unknown Show'',
         d_thumbnail = None,
         d_transcript = None,
         d_summary = None,
         d_timestampSeconds = timestampSeconds,
         d_manualMode = Some True,
         d_message = Some ''Podcast not found in database. You can add your own notes!''\<rparr>,
      res_message = None\<rparr>"

text \<open>Later revision, from the check of the transcript to the response.\<close>

definition summarize_and_respond ::
  "env \<Rightarrow> string \<Rightarrow> string option \<Rightarrow> int \<Rightarrow> episode \<Rightarrow> string option \<Rightarrow> world
     \<Rightarrow> (string + response) \<times> world" where
  "summarize_and_respond env title showName timestampSeconds episode transcript w =
     (case transcript of
        None \<Rightarrow> (Inr (error_response 500 ''Failed to get transcript for this segment''), w)
      | Some t \<Rightarrow>
          if t = [] \<or> length (js_trim t) = 0
          then (Inr (error_response 500 ''Failed to get transcript for this segment''), w)
          else
            (case summarizeTranscript env t title w of
               (Inl m, w1) \<Rightarrow> (Inl m, w1)
             | (Inr summary, w1) \<Rightarrow>
                 (Inr \<lparr>res_status = 200, res_success = True,
                       res_data = Some
                         \<lparr>d_episodeTitle = title,
                          d_showName = str_or showName (e_showName episode),
                          d_thumbnail = e_thumbnail episode,
                          d_transcript = Some t,
                          d_summary = Some summary,
                          d_timestampSeconds = timestampSeconds,
                          d_manualMode = None,
                          d_message = None\<rparr>,
                       res_message = None\<rparr>,
                  logToSupabase w1)))"

text \<open>Step 2 of both revisions: the transcript known to the search service, if any.\<close>

definition embedded_transcript ::
  "env \<Rightarrow> episode \<Rightarrow> int \<Rightarrow> world \<Rightarrow> string option \<times> world" where
  "embedded_transcript env episode timestampSeconds w =
     (if e_hasTranscript episode
      then (case getEpisodeTranscript env (e_id episode) w of
              (Some fullTranscript, w1) \<Rightarrow>
                (extractTranscriptSegment fullTranscript timestampSeconds 30, w1)
            | (None, w1) \<Rightarrow> (None, w1))
      else (None, w))"

text \<open>
  Steps 2 and 3 of the later revision: the transcript is taken from the search service when
  it has one, otherwise from a snippet of the audio. The result is a throw, an early
  response, or the value of \<^verbatim>\<open>transcript\<close> when the handler reaches its check; with it
  come the value of \<^verbatim>\<open>audioPath\<close> and the world.
\<close>

definition acquire_transcript ::
  "env \<Rightarrow> episode \<Rightarrow> int \<Rightarrow> world
     \<Rightarrow> (string + response + string option) \<times> path option \<times> world" where
  "acquire_transcript env episode timestampSeconds w =
     (case embedded_transcript env episode timestampSeconds w of
        (transcript, w1) \<Rightarrow>
          if \<not> str_truthy transcript
          then
            (if \<not> str_truthy (e_audioUrl episode)
             then (Inr (Inl (error_response 404 ''No audio URL available for this episode'')),
                   None, w1)
             else
               (case extractAudioSnippet env (str_or (e_audioUrl episode) [])
                       timestampSeconds 30 w1 of
                  (Inl m, w2) \<Rightarrow> (Inl m, None, w2)
                | (Inr audioPath, w2) \<Rightarrow>
                    (case transcribeWithWhisper env audioPath w2 of
                       (Inl m, w3) \<Rightarrow> (Inl m, Some audioPath, w3)
                     | (Inr spoken, w3) \<Rightarrow> (Inr (Inr (Some spoken)), Some audioPath, w3))))
          else (Inr (Inr transcript), None, w1))"

text \<open>
  The \<^verbatim>\<open>try\<close> block of the later revision. The result is what the block returns or
  throws, the value of \<^verbatim>\<open>audioPath\<close> when the block is left, and the world.
\<close>

definition process_insight_try ::
  "env \<Rightarrow> string \<Rightarrow> string option \<Rightarrow> int \<Rightarrow> world
     \<Rightarrow> (string + response) \<times> path option \<times> world" where
  "process_insight_try env title showName timestampSeconds w =
     (case searchListenNotes env title (str_or showName []) w of
        (Inl m, w1) \<Rightarrow> (Inl m, None, w1)
      | (Inr None, w1) \<Rightarrow>
          (Inr (manual_response title showName timestampSeconds), None, logToSupabase w1)
      | (Inr (Some episode), w1) \<Rightarrow>
          (case acquire_transcript env episode timestampSeconds w1 of
             (Inl m, audioPath, w2) \<Rightarrow> (Inl m, audioPath, w2)
           | (Inr (Inl resp), audioPath, w2) \<Rightarrow> (Inr resp, audioPath, w2)
           | (Inr (Inr transcript), audioPath, w2) \<Rightarrow>
               (case summarize_and_respond env title showName timestampSeconds
                       episode transcript w2 of
                  (r, w3) \<Rightarrow> (r, audioPath, w3))))"

text \<open>
  The handler: validation, the \<^verbatim>\<open>try\<close> block, the \<^verbatim>\<open>catch\<close> clause that turns a throw
  into a 500 response, and the \<^verbatim>\<open>finally\<close> clause that removes the snippet. The world
  returned is the one the handler leaves when it completes.
\<close>

definition process_insight :: "env \<Rightarrow> request_body \<Rightarrow> world \<Rightarrow> response \<times> world" where
  "process_insight env body w =
     (if \<not> str_truthy (b_title body)
      then (error_response 400 ''Title is required'', w)
      else
        (let title = str_or (b_title body) [];
             timestampSeconds = (case parseInt (b_timestamp body) of Some n \<Rightarrow> n | None \<Rightarrow> 0)
         in case process_insight_try env title (b_showName body) timestampSeconds w of
              (r, audioPath, w1) \<Rightarrow>
                ((case r of
                    Inr resp \<Rightarrow> resp
                  | Inl m \<Rightarrow> error_response 500
                             (if m \<noteq> [] then m else ''Failed to process insight'')),
                 (case audioPath of
                    Some p \<Rightarrow> cleanupTempFiles [p] w1
                  | None \<Rightarrow> w1))))"

subsection \<open>The earlier revision of the handler\<close>

definition summarize_and_respond_rev1 ::
  "env \<Rightarrow> string \<Rightarrow> string option \<Rightarrow> int \<Rightarrow> episode \<Rightarrow> string option \<Rightarrow> world
     \<Rightarrow> (string + response) \<times> world" where
  "summarize_and_respond_rev1 env title showName timestampSeconds episode transcript w =
     (case transcript of
        None \<Rightarrow> (Inr (error_response 500 ''Failed to get transcript for this segment''), w)
      | Some t \<Rightarrow>
          if t = [] \<or> length (js_trim t) = 0
          then (Inr (error_response 500 ''Failed to get transcript for this segment''), w)
          else
            (case summarizeTranscript_rev1 env t title w of
               (Inl m, w1) \<Rightarrow> (Inl m, w1)
             | (Inr summary, w1) \<Rightarrow>
                 (Inr \<lparr>res_status = 200, res_success = True,
                       res_data = Some
                         \<lparr>d_episodeTitle = e_title episode,
                          d_showName = e_showName episode,
                          d_thumbnail = e_thumbnail episode,
                          d_transcript = Some t,
                          d_summary = Some summary,
                          d_timestampSeconds = timestampSeconds,
                          d_manualMode = None,
                          d_message = None\<rparr>,
                       res_message = None\<rparr>,
                  logToSupabase w1)))"

definition acquire_transcript_rev1 ::
  "env \<Rightarrow> episode \<Rightarrow> int \<Rightarrow> world
     \<Rightarrow> (string + response + string option) \<times> path option \<times> world" where
  "acquire_transcript_rev1 env episode timestampSeconds w =
     (case embedded_transcript env episode timestampSeconds w of
        (transcript, w1) \<Rightarrow>
          if \<not> str_truthy transcript
          then
            (if \<not> str_truthy (e_audioUrl episode)
             then (Inr (Inl (error_response 404 ''No audio URL available for this episode'')),
                   None, w1)
             else
               (case extractAudioSnippet_rev1 env (str_or (e_audioUrl episode) [])
                       timestampSeconds 30 w1 of
                  (Inl m, w2) \<Rightarrow> (Inl m, None, w2)
                | (Inr audioPath, w2) \<Rightarrow>
                    (case transcribeWithWhisper_rev1 env audioPath w2 of
                       (Inl m, w3) \<Rightarrow> (Inl m, Some audioPath, w3)
                     | (Inr spoken, w3) \<Rightarrow> (Inr (Inr (Some spoken)), Some audioPath, w3))))
          else (Inr (Inr transcript), None, w1))"

definition process_insight_try_rev1 ::
  "env \<Rightarrow> string \<Rightarrow> string option \<Rightarrow> int \<Rightarrow> world
     \<Rightarrow> (string + response) \<times> path option \<times> world" where
  "process_insight_try_rev1 env title showName timestampSeconds w =
     (case searchListenNotes_rev1 env title (str_or showName []) w of
        (Inl m, w1) \<Rightarrow> (Inl m, None, w1)
      | (Inr None, w1) \<Rightarrow>
          (Inr (error_response 404 ''Could not find podcast episode in Listen Notes''),
           None, w1)
      | (Inr (Some episode), w1) \<Rightarrow>
          (case acquire_transcript_rev1 env episode timestampSeconds w1 of
             (Inl m, audioPath, w2) \<Rightarrow> (Inl m, audioPath, w2)
           | (Inr (Inl resp), audioPath, w2) \<Rightarrow> (Inr resp, audioPath, w2)
           | (Inr (Inr transcript), audioPath, w2) \<Rightarrow>
               (case summarize_and_respond_rev1 env title showName timestampSeconds
                       episode transcript w2 of
                  (r, w3) \<Rightarrow> (r, audioPath, w3))))"

definition process_insight_rev1 :: "env \<Rightarrow> request_body \<Rightarrow> world \<Rightarrow> response \<times> world" where
  "process_insight_rev1 env body w =
     (if \<not> str_truthy (b_title body)
      then (error_response 400 ''Title is required'', w)
      else
        (let title = str_or (b_title body) [];
             timestampSeconds = (case parseInt (b_timestamp body) of Some n \<Rightarrow> n | None \<Rightarrow> 0)
         in case process_insight_try_rev1 env title (b_showName body) timestampSeconds w of
              (r, audioPath, w1) \<Rightarrow>
                ((case r of
                    Inr resp \<Rightarrow> resp
                  | Inl m \<Rightarrow> error_response 500
                             (if m \<noteq> [] then m else ''Failed to process insight'')),
                 (case audioPath of
                    Some p \<Rightarrow> cleanupTempFiles [p] w1
                  | None \<Rightarrow> w1))))"

section \<open>Observations on a run\<close>

text \<open>The number of calls to the language model recorded in a world.\<close>

fun is_completion :: "call \<Rightarrow> bool" where
  "is_completion (CompletionCall prompt) = True"
| "is_completion c = False"

definition summarizer_calls :: "world \<Rightarrow> nat" where
  "summarizer_calls w = length (filter is_completion (calls w))"

text \<open>Concrete replies, requests and worlds on which the handlers are run below.\<close>

definition found_episode :: raw_episode where
  "found_episode =
     \<lparr>r_id = ''ep1'', r_title_original = ''Resolved title'',
      r_podcast_title_original = Some ''Resolved show'',
      r_audio = Some ''https://cdn.example/ep1.mp3'', r_thumbnail = Some ''https://cdn.example/ep1.png'',
      r_description_original = None, r_transcript = None\<rparr>"

definition audio_env :: env where
  "audio_env =
     \<lparr>search_reply = Returned [found_episode],
      episode_reply = Returned None,
      now = 1700000000000,
      ytdlp_run = \<lparr>exit_error = None, written = Some 5\<rparr>,
      curl_run = \<lparr>exit_error = None, written = Some 4000000\<rparr>,
      ffmpeg_run = \<lparr>exit_error = None, written = Some 60000\<rparr>,
      whisper_reply = Returned ''so the point is to start small'',
      chat_reply = Returned (''- Start small'' @ [CHR 0x0A] @ ''- Keep going'')\<rparr>"

definition small_download_env :: env where
  "small_download_env = audio_env\<lparr>curl_run := \<lparr>exit_error = None, written = Some 512\<rparr>\<rparr>"

definition not_found_env :: env where
  "not_found_env = audio_env\<lparr>search_reply := Returned []\<rparr>"

definition blank_speech_env :: env where
  "blank_speech_env = audio_env\<lparr>whisper_reply := Returned [CHR '' '', CHR 0x0A, CHR '' '']\<rparr>"




definition empty_world :: world where
  "empty_world = \<lparr>files = Map.empty, calls = []\<rparr>"

definition untitled_body :: request_body where
  "untitled_body =
     \<lparr>b_title = Some [], b_showName = Some ''My show'',
      b_timestamp = JNumber ''95'', b_spotifyUrl = None\<rparr>"


definition sample_body :: request_body where
  "sample_body =
     \<lparr>b_title = Some ''My title'', b_showName = Some ''My show'',
      b_timestamp = JNumber ''95'', b_spotifyUrl = None\<rparr>"

section \<open>Properties of the segmenter\<close>

lemma split_on_nonempty: "split_on c s \<noteq> []"
  by (induction s) (auto split: list.splits)

lemma join_split_on: "join_with [c] (split_on c s) = s"
proof (induction s)
  case Nil
  show ?case by simp
next
  case (Cons x xs)
  obtain w ws where r: "split_on c xs = w # ws"
    using split_on_nonempty [of c xs] by (cases "split_on c xs") auto
  show ?case
  proof (cases "x = c")
    case True
    with Cons r show ?thesis by simp
  next
    case False
    with Cons r show ?thesis by (cases ws) auto
  qed
qed

lemma js_slice_contiguous: "\<exists>pre post. xs = pre @ js_slice xs s e @ post"
proof -
  obtain k n where sl: "js_slice xs s e = take n (drop k xs)"
    by (simp add: js_slice_def Let_def)
  have "take k xs @ (take n (drop k xs) @ drop n (drop k xs)) = xs"
    by (simp only: append_take_drop_id)
  with sl show ?thesis by metis
qed

lemma js_slice_nonneg:
  assumes "0 \<le> s" and "0 \<le> e" and "e \<le> int (length xs)"
  shows "js_slice xs s e = take (nat (e - s)) (drop (nat s) xs)"
proof (cases "s \<le> int (length xs)")
  case True
  with assms show ?thesis by (simp add: js_slice_def Let_def min_def)
next
  case False
  with assms show ?thesis by (simp add: js_slice_def Let_def min_def)
qed

lemma round_half_even_nonneg: "0 \<le> x \<Longrightarrow> 0 \<le> round_half_even x"
  by (simp add: round_half_even_def Let_def)

lemma to_double_nonneg: "0 \<le> x \<Longrightarrow> 0 \<le> to_double x"
  by (simp add: to_double_def Let_def round_half_even_nonneg)

lemma approximateWordIndex_nonneg: "0 \<le> t \<Longrightarrow> 0 \<le> approximateWordIndex t"
  by (simp add: approximateWordIndex_def to_double_nonneg)

text \<open>
  C7 (as amended). In flat-string mode the payload is cut at every single space character
  (other white space does not separate, and two adjacent spaces enclose an empty token);
  the result is the \<^verbatim>\<open>slice\<close> of these tokens from \<open>max 0 (i - 25)\<close> to
  \<open>min n (i + 75)\<close>, joined by single spaces, where \<open>n\<close> is the number of tokens and
  \<open>i\<close> the floor of the double-precision value of \<open>(t / 60) * 150\<close>. The result is
  always the join of a contiguous run of the tokens, and for \<open>t \<ge> 0\<close> the run starts at
  index \<open>max 0 (i - 25)\<close> and has \<open>min n (i + 75) - max 0 (i - 25)\<close> tokens (none when
  that is not positive).
\<close>

theorem extract_flat_space_tokens:
  "\<exists>pre toks post.
     split_on CHR '' '' s = pre @ toks @ post \<and>
     extractTranscriptSegment (FlatText s) t d = Some (join_with '' '' toks) \<and>
     toks = js_slice (split_on CHR '' '' s)
              (max 0 (approximateWordIndex t - 25))
              (min (int (length (split_on CHR '' '' s))) (approximateWordIndex t + 75)) \<and>
     (0 \<le> t \<longrightarrow>
        toks = take (nat (min (int (length (split_on CHR '' '' s))) (approximateWordIndex t + 75)
                          - max 0 (approximateWordIndex t - 25)))
                 (drop (nat (max 0 (approximateWordIndex t - 25))) (split_on CHR '' '' s)))"
proof -
  define ws where "ws = split_on CHR '' '' s"
  define a where "a = max 0 (approximateWordIndex t - 25)"
  define b where "b = min (int (length ws)) (approximateWordIndex t + 75)"
  obtain pre post where c: "ws = pre @ js_slice ws a b @ post"
    using js_slice_contiguous by blast
  have r: "extractTranscriptSegment (FlatText s) t d = Some (join_with '' '' (js_slice ws a b))"
    by (simp add: ws_def a_def b_def Let_def)
  have e: "0 \<le> t \<longrightarrow> js_slice ws a b = take (nat (b - a)) (drop (nat a) ws)"
  proof
    assume "0 \<le> t"
    then have "0 \<le> approximateWordIndex t" by (rule approximateWordIndex_nonneg)
    then have "0 \<le> a" "0 \<le> b" "b \<le> int (length ws)"
      by (simp_all add: a_def b_def)
    then show "js_slice ws a b = take (nat (b - a)) (drop (nat a) ws)"
      by (rule js_slice_nonneg)
  qed
  from c r e show ?thesis
    unfolding ws_def a_def b_def by blast
qed

theorem extract_flat_space_tokens_witness:
  "(0::int) \<le> 12 \<and>
   extractTranscriptSegment (FlatText ''w0 w1 w2 w3 w4 w5 w6 w7'') 12 30 = Some ''w5 w6 w7''"
proof -
  have i: "approximateWordIndex 12 = 30"
    by code_simp
  have sp: "split_on CHR '' '' ''w0 w1 w2 w3 w4 w5 w6 w7''
              = [''w0'', ''w1'', ''w2'', ''w3'', ''w4'', ''w5'', ''w6'', ''w7'']"
    by code_simp
  from extract_flat_space_tokens [of "''w0 w1 w2 w3 w4 w5 w6 w7''" 12 30]
  obtain toks where
    r: "extractTranscriptSegment (FlatText ''w0 w1 w2 w3 w4 w5 w6 w7'') 12 30
          = Some (join_with '' '' toks)" and
    t: "(0::int) \<le> 12 \<longrightarrow>
          toks = take (nat (min (int (length (split_on CHR '' '' ''w0 w1 w2 w3 w4 w5 w6 w7'')))
                                (approximateWordIndex 12 + 75)
                            - max 0 (approximateWordIndex 12 - 25)))
                   (drop (nat (max 0 (approximateWordIndex 12 - 25)))
                      (split_on CHR '' '' ''w0 w1 w2 w3 w4 w5 w6 w7''))"
    by blast
  from t have "toks = [''w5'', ''w6'', ''w7'']"
    unfolding i sp by simp
  with r show ?thesis by simp
qed

text \<open>
  C7 (as stated) fails: a tab is white space but does not separate tokens in the code.
  On the payload \<^verbatim>\<open>a<TAB>b c\<close> the code returns the payload unchanged, whereas the
  white-space-delimited tokens joined by single spaces are \<^verbatim>\<open>a b c\<close>.
\<close>

theorem extract_flat_whitespace_counterexample:
  "extractTranscriptSegment (FlatText [CHR ''a'', CHR 0x09, CHR ''b'', CHR '' '', CHR ''c'']) 0 30
     = Some [CHR ''a'', CHR 0x09, CHR ''b'', CHR '' '', CHR ''c''] \<and>
   spec_flat_segment [CHR ''a'', CHR 0x09, CHR ''b'', CHR '' '', CHR ''c''] 0 = ''a b c'' \<and>
   extractTranscriptSegment (FlatText [CHR ''a'', CHR 0x09, CHR ''b'', CHR '' '', CHR ''c'']) 0 30
     \<noteq> Some (spec_flat_segment [CHR ''a'', CHR 0x09, CHR ''b'', CHR '' '', CHR ''c''] 0)"
  by code_simp

text \<open>
  C4 (as amended). In segmented mode the code keeps exactly the segments that lie inside
  the window, \<open>t - 5 \<le> segStart\<close> and \<open>segEnd \<le> t + w + 5\<close>, where \<open>segStart\<close> is
  \<^verbatim>\<open>start_time || start || 0\<close> and \<open>segEnd\<close> is \<^verbatim>\<open>end_time || end || segStart + 5\<close>,
  and returns their texts (\<^verbatim>\<open>text || words || ''\<close>) in the original order, joined by
  single spaces.
\<close>

theorem extract_segments_within_window:
  "extractTranscriptSegment (TimedSegments segs) t w
     = Some (join_with '' '' (map segText (filter (within_window t w) segs)))"
proof -
  have "(\<lambda>seg. rat_of_int (t - 5) \<le> segStart seg \<and> segEnd seg \<le> rat_of_int (t + w + 5))
          = within_window t w"
    by (rule ext) (simp add: within_window_def)
  then show ?thesis by simp
qed

text \<open>
  C4 (as stated) fails: a segment that overlaps the window without lying inside it is
  dropped. With \<open>t = 12\<close> and \<open>w = 30\<close> the window is \<open>[7, 47]\<close>; the segment
  \<open>[40, 50)\<close> overlaps it, yet the code returns only the text of \<open>[10, 15)\<close>.
\<close>

theorem extract_segments_overlap_counterexample:
  "extractTranscriptSegment
     (TimedSegments [plain_segment 10 15 ''a'', plain_segment 40 50 ''b'']) 12 30 = Some ''a'' \<and>
   spec_timed_segment [plain_segment 10 15 ''a'', plain_segment 40 50 ''b''] 12 30 = ''a b'' \<and>
   extractTranscriptSegment
     (TimedSegments [plain_segment 10 15 ''a'', plain_segment 40 50 ''b'']) 12 30
     \<noteq> Some (spec_timed_segment [plain_segment 10 15 ''a'', plain_segment 40 50 ''b''] 12 30)"
  by code_simp

section \<open>The temporary files of a run\<close>

lemma temp_paths_distinct:
  "fullAudioPath t \<noteq> snippetPath t" "tempAudioPath t \<noteq> snippetPath t"
  by (simp_all add: fullAudioPath_def tempAudioPath_def snippetPath_def path_join_def TEMP_DIR_def)

lemma files_fs_unlink: "files (snd (fs_unlink p w)) = (files w)(p := None)"
  by (auto simp: fs_unlink_def split: option.splits)

lemma files_cleanupTempFiles:
  "files (cleanupTempFiles ps w) p = (if p \<in> set ps then None else files w p)"
  by (induction ps arbitrary: w) (auto simp: files_fs_unlink)

lemma download_and_trim_other:
  assumes "download_and_trim env url s tot ts w = (r, w')"
    and "p \<noteq> fullAudioPath ts" and "p \<noteq> snippetPath ts"
  shows "files w' p = files w p"
  using assms
  by (auto simp: download_and_trim_def Let_def execAsync_def fs_stat_def fs_unlink_def
      split: prod.splits sum.splits option.splits if_splits)

lemma download_and_trim_ok:
  assumes "download_and_trim env url s tot ts w = (Inr q, w')"
  shows "q = snippetPath ts \<and> files w' (fullAudioPath ts) = None"
  using assms temp_paths_distinct(1) [of ts]
  by (auto simp: download_and_trim_def Let_def execAsync_def fs_stat_def fs_unlink_def
      split: prod.splits sum.splits option.splits if_splits)

lemma extractAudioSnippet_cases:
  assumes "extractAudioSnippet env url t d w = (r, w')"
  obtains (ok) q where "r = Inr q"
      "download_and_trim env url (max 0 (t - 5)) (d + 10) (now env) w = (Inr q, w')"
  | (failed) m w0 where "r = Inl (''Failed to extract audio snippet: '' @ m)"
      "download_and_trim env url (max 0 (t - 5)) (d + 10) (now env) w = (Inl m, w0)"
      "w' = cleanupTempFiles [fullAudioPath (now env), snippetPath (now env)] w0"
proof -
  obtain r0 w0 where b: "download_and_trim env url (max 0 (t - 5)) (d + 10) (now env) w = (r0, w0)"
    by (cases "download_and_trim env url (max 0 (t - 5)) (d + 10) (now env) w")
  show thesis
  proof (cases r0)
    case (Inl m)
    show ?thesis
    proof (rule failed)
      show "r = Inl (''Failed to extract audio snippet: '' @ m)"
        using assms b Inl by (simp add: extractAudioSnippet_def Let_def)
      show "download_and_trim env url (max 0 (t - 5)) (d + 10) (now env) w = (Inl m, w0)"
        using b Inl by simp
      show "w' = cleanupTempFiles [fullAudioPath (now env), snippetPath (now env)] w0"
        using assms b Inl
        by (simp add: extractAudioSnippet_def Let_def del: cleanupTempFiles.simps)
    qed
  next
    case (Inr q)
    show ?thesis
    proof (rule ok)
      show "r = Inr q"
        using assms b Inr by (simp add: extractAudioSnippet_def Let_def)
      show "download_and_trim env url (max 0 (t - 5)) (d + 10) (now env) w = (Inr q, w')"
        using assms b Inr by (simp add: extractAudioSnippet_def Let_def)
    qed
  qed
qed

lemma extractAudioSnippet_other:
  assumes "extractAudioSnippet env url t d w = (r, w')"
    and "p \<noteq> fullAudioPath (now env)" and "p \<noteq> snippetPath (now env)"
  shows "files w' p = files w p"
  using assms(1)
proof (cases rule: extractAudioSnippet_cases)
  case (ok q)
  then show ?thesis using assms(2,3) download_and_trim_other by blast
next
  case (failed m w0)
  have "files w0 p = files w p"
    using failed(2) assms(2,3) by (rule download_and_trim_other)
  with failed(3) assms(2,3) show ?thesis
    by (simp add: files_cleanupTempFiles del: cleanupTempFiles.simps)
qed

lemma extractAudioSnippet_failed:
  assumes "extractAudioSnippet env url t d w = (Inl m, w')"
  shows "files w' (fullAudioPath (now env)) = None \<and> files w' (snippetPath (now env)) = None"
  using assms
proof (cases rule: extractAudioSnippet_cases)
  case (ok q)
  then show ?thesis by simp
next
  case (failed m0 w0)
  then show ?thesis by (simp add: files_cleanupTempFiles del: cleanupTempFiles.simps)
qed

lemma extractAudioSnippet_ok:
  assumes "extractAudioSnippet env url t d w = (Inr q, w')"
  shows "q = snippetPath (now env) \<and> files w' (fullAudioPath (now env)) = None"
  using assms
proof (cases rule: extractAudioSnippet_cases)
  case (ok q0)
  then show ?thesis using download_and_trim_ok by blast
next
  case (failed m0 w0)
  then show ?thesis by simp
qed

lemma extractAudioSnippet_kept:
  assumes "extractAudioSnippet env url t d w = (r, w')" and "r \<noteq> Inr p"
  shows "files w' p = None \<or> files w' p = files w p"
proof (cases r)
  case (Inl m)
  with assms(1) extractAudioSnippet_failed [of env url t d w m w']
    extractAudioSnippet_other [of env url t d w r w' p]
  show ?thesis by blast
next
  case (Inr q)
  with assms extractAudioSnippet_ok [of env url t d w q w']
    extractAudioSnippet_other [of env url t d w r w' p]
  show ?thesis by blast
qed

lemma files_searchListenNotes:
  "searchListenNotes env title showName w = (r, w') \<Longrightarrow> files w' = files w"
  by (auto simp: searchListenNotes_def Let_def split: outcome.splits list.splits)

lemma files_getEpisodeTranscript:
  "getEpisodeTranscript env i w = (r, w') \<Longrightarrow> files w' = files w"
  by (auto simp: getEpisodeTranscript_def Let_def split: outcome.splits)

lemma files_embedded_transcript:
  "embedded_transcript env ep ts w = (r, w') \<Longrightarrow> files w' = files w"
  by (auto simp: embedded_transcript_def split: if_splits prod.splits option.splits
      dest: files_getEpisodeTranscript)

lemma files_transcribeWithWhisper:
  "transcribeWithWhisper env p w = (r, w') \<Longrightarrow> files w' = files w"
  by (auto simp: transcribeWithWhisper_def Let_def split: sum.splits outcome.splits)

lemma files_summarizeTranscript:
  "summarizeTranscript env t title w = (r, w') \<Longrightarrow> files w' = files w"
  by (auto simp: summarizeTranscript_def Let_def split: outcome.splits)

lemma files_logToSupabase: "files (logToSupabase w) = files w"
  by (simp add: logToSupabase_def)

lemma files_summarize_and_respond:
  "summarize_and_respond env title showName ts ep tr w = (r, w') \<Longrightarrow> files w' = files w"
  by (auto simp: summarize_and_respond_def files_logToSupabase
      split: option.splits if_splits prod.splits sum.splits
      dest: files_summarizeTranscript)

lemma acquire_transcript_files:
  assumes "acquire_transcript env ep ts w = (r, ap, w1)" and "ap \<noteq> Some p"
  shows "files w1 p = None \<or> files w1 p = files w p"
proof -
  obtain tr w2 where e: "embedded_transcript env ep ts w = (tr, w2)"
    by (cases "embedded_transcript env ep ts w")
  then have f2: "files w2 = files w" by (rule files_embedded_transcript)
  show ?thesis
  proof (cases "str_truthy tr")
    case True
    with assms e f2 show ?thesis by (simp add: acquire_transcript_def)
  next
    case False
    show ?thesis
    proof (cases "str_truthy (e_audioUrl ep)")
      case noaudio: False
      with assms e False f2 show ?thesis by (simp add: acquire_transcript_def)
    next
      case audio: True
      obtain xr w3 where
        x: "extractAudioSnippet env (str_or (e_audioUrl ep) []) ts 30 w2 = (xr, w3)"
        by (cases "extractAudioSnippet env (str_or (e_audioUrl ep) []) ts 30 w2")
      show ?thesis
      proof (cases xr)
        case (Inl m)
        then have "xr \<noteq> Inr p" by simp
        with x have "files w3 p = None \<or> files w3 p = files w2 p"
          by (rule extractAudioSnippet_kept)
        with assms e False audio x Inl f2 show ?thesis
          by (simp add: acquire_transcript_def)
      next
        case xok: (Inr q)
        obtain tr4 w4 where t: "transcribeWithWhisper env q w3 = (tr4, w4)"
          by (cases "transcribeWithWhisper env q w3")
        then have f4: "files w4 = files w3" by (rule files_transcribeWithWhisper)
        from assms e False audio x xok t
        have "ap = Some q" "w1 = w4"
          by (cases tr4; simp add: acquire_transcript_def)+
        with assms(2) have "xr \<noteq> Inr p" using xok by auto
        with x have "files w3 p = None \<or> files w3 p = files w2 p"
          by (rule extractAudioSnippet_kept)
        with f4 f2 \<open>w1 = w4\<close> show ?thesis by simp
      qed
    qed
  qed
qed

lemma process_insight_try_files:
  assumes "process_insight_try env title showName ts w = (r, ap, w1)" and "ap \<noteq> Some p"
  shows "files w1 p = None \<or> files w1 p = files w p"
proof -
  obtain sr ws where s: "searchListenNotes env title (str_or showName []) w = (sr, ws)"
    by (cases "searchListenNotes env title (str_or showName []) w")
  then have fs: "files ws = files w" by (rule files_searchListenNotes)
  show ?thesis
  proof (cases sr)
    case (Inl m)
    with assms s fs show ?thesis by (simp add: process_insight_try_def)
  next
    case (Inr found)
    show ?thesis
    proof (cases found)
      case None
      with assms s fs Inr show ?thesis
        by (auto simp: process_insight_try_def files_logToSupabase)
    next
      case (Some ep)
      obtain ar ap2 w2 where a: "acquire_transcript env ep ts ws = (ar, ap2, w2)"
        by (cases "acquire_transcript env ep ts ws")
      have k: "ap2 \<noteq> Some p \<Longrightarrow> files w2 p = None \<or> files w2 p = files w p"
        using acquire_transcript_files [OF a] fs by simp
      show ?thesis
      proof (cases ar)
        case (Inl m)
        with assms s Inr Some a k show ?thesis by (simp add: process_insight_try_def)
      next
        case inner: (Inr v)
        show ?thesis
        proof (cases v)
          case (Inl resp)
          with assms s Inr Some a inner k show ?thesis by (simp add: process_insight_try_def)
        next
          case got: (Inr tr)
          obtain r3 w3 where
            f: "summarize_and_respond env title showName ts ep tr w2 = (r3, w3)"
            by (cases "summarize_and_respond env title showName ts ep tr w2")
          then have "files w3 = files w2" by (rule files_summarize_and_respond)
          with assms s Inr Some a inner got f k show ?thesis
            by (simp add: process_insight_try_def)
        qed
      qed
    qed
  qed
qed

lemma process_insight_files:
  "files (snd (process_insight env body w)) p = None \<or>
   files (snd (process_insight env body w)) p = files w p"
proof (cases "str_truthy (b_title body)")
  case False
  then show ?thesis by (simp add: process_insight_def)
next
  case True
  define ts where "ts = (case parseInt (b_timestamp body) of Some n \<Rightarrow> n | None \<Rightarrow> 0)"
  obtain r ap w1 where
    t: "process_insight_try env (str_or (b_title body) []) (b_showName body) ts w = (r, ap, w1)"
    by (cases "process_insight_try env (str_or (b_title body) []) (b_showName body) ts w")
  have w2: "snd (process_insight env body w)
              = (case ap of Some q \<Rightarrow> cleanupTempFiles [q] w1 | None \<Rightarrow> w1)"
    using True t by (simp add: process_insight_def ts_def Let_def)
  show ?thesis
  proof (cases "ap = Some p")
    case True
    with w2 show ?thesis by (simp add: files_fs_unlink)
  next
    case False
    with t have "files w1 p = None \<or> files w1 p = files w p"
      by (rule process_insight_try_files)
    with w2 False show ?thesis
      by (cases ap) (auto simp: files_fs_unlink)
  qed
qed

subsection \<open>The earlier revision\<close>

lemma files_execAsync_at:
  "files (snd (execAsync c out r w)) p
     = (if p = out then (case written r of None \<Rightarrow> files w p | Some n \<Rightarrow> Some n)
        else files w p)"
  by (simp add: execAsync_def split: option.splits)

lemma files_fs_rename_at:
  "files (snd (fs_rename a b w)) p
     = (case files w a of None \<Rightarrow> files w p
        | Some n \<Rightarrow> if p = b then Some n else if p = a then None else files w p)"
  by (simp add: fs_rename_def split: option.splits)

lemma fs_rename_ok:
  "fst (fs_rename a b w) = Inr u \<Longrightarrow> files w a \<noteq> None"
  by (auto simp: fs_rename_def split: option.splits)

lemma download_and_trim_rev1_other:
  assumes "download_and_trim_rev1 env url s tot ts w = (r, w')"
    and "p \<noteq> tempAudioPath ts" and "p \<noteq> snippetPath ts"
  shows "files w' p = files w p"
proof -
  have "files (snd (download_and_trim_rev1 env url s tot ts w)) p = files w p"
    using assms(2,3)
    by (simp add: download_and_trim_rev1_def split_beta files_execAsync_at files_fs_rename_at
          files_fs_unlink
        split: sum.splits option.splits)
  with assms(1) show ?thesis by simp
qed

lemma download_and_trim_rev1_ok:
  assumes "download_and_trim_rev1 env url s tot ts w = (Inr q, w')"
  shows "q = snippetPath ts \<and> files w' (tempAudioPath ts) = None"
proof -
  have "case fst (download_and_trim_rev1 env url s tot ts w) of
          Inl m \<Rightarrow> True
        | Inr q \<Rightarrow> q = snippetPath ts \<and>
            files (snd (download_and_trim_rev1 env url s tot ts w)) (tempAudioPath ts) = None"
    using temp_paths_distinct(2) [of ts]
    by (auto simp: download_and_trim_rev1_def split_beta files_execAsync_at files_fs_rename_at
          files_fs_unlink
        split: sum.splits option.splits dest: fs_rename_ok)
  with assms show ?thesis by simp
qed

lemma extractAudioSnippet_rev1_cases:
  assumes "extractAudioSnippet_rev1 env url t d w = (r, w')"
  obtains (ok) q where "r = Inr q"
      "download_and_trim_rev1 env url (max 0 (t - 5)) (d + 10) (now env) w = (Inr q, w')"
  | (failed) m w0 where "r = Inl (''Failed to extract audio snippet'')"
      "download_and_trim_rev1 env url (max 0 (t - 5)) (d + 10) (now env) w = (Inl m, w0)"
      "w' = cleanupTempFiles [tempAudioPath (now env), snippetPath (now env)] w0"
proof -
  obtain r0 w0 where b: "download_and_trim_rev1 env url (max 0 (t - 5)) (d + 10) (now env) w = (r0, w0)"
    by (cases "download_and_trim_rev1 env url (max 0 (t - 5)) (d + 10) (now env) w")
  show thesis
  proof (cases r0)
    case (Inl m)
    show ?thesis
    proof (rule failed)
      show "r = Inl (''Failed to extract audio snippet'')"
        using assms b Inl by (simp add: extractAudioSnippet_rev1_def Let_def)
      show "download_and_trim_rev1 env url (max 0 (t - 5)) (d + 10) (now env) w = (Inl m, w0)"
        using b Inl by simp
      show "w' = cleanupTempFiles [tempAudioPath (now env), snippetPath (now env)] w0"
        using assms b Inl
        by (simp add: extractAudioSnippet_rev1_def Let_def del: cleanupTempFiles.simps)
    qed
  next
    case (Inr q)
    show ?thesis
    proof (rule ok)
      show "r = Inr q"
        using assms b Inr by (simp add: extractAudioSnippet_rev1_def Let_def)
      show "download_and_trim_rev1 env url (max 0 (t - 5)) (d + 10) (now env) w = (Inr q, w')"
        using assms b Inr by (simp add: extractAudioSnippet_rev1_def Let_def)
    qed
  qed
qed

lemma extractAudioSnippet_rev1_other:
  assumes "extractAudioSnippet_rev1 env url t d w = (r, w')"
    and "p \<noteq> tempAudioPath (now env)" and "p \<noteq> snippetPath (now env)"
  shows "files w' p = files w p"
  using assms(1)
proof (cases rule: extractAudioSnippet_rev1_cases)
  case (ok q)
  then show ?thesis using assms(2,3) download_and_trim_rev1_other by blast
next
  case (failed m w0)
  have "files w0 p = files w p"
    using failed(2) assms(2,3) by (rule download_and_trim_rev1_other)
  with failed(3) assms(2,3) show ?thesis
    by (simp add: files_cleanupTempFiles del: cleanupTempFiles.simps)
qed

lemma extractAudioSnippet_rev1_failed:
  assumes "extractAudioSnippet_rev1 env url t d w = (Inl m, w')"
  shows "files w' (tempAudioPath (now env)) = None \<and> files w' (snippetPath (now env)) = None"
  using assms
proof (cases rule: extractAudioSnippet_rev1_cases)
  case (ok q)
  then show ?thesis by simp
next
  case (failed m0 w0)
  then show ?thesis by (simp add: files_cleanupTempFiles del: cleanupTempFiles.simps)
qed

lemma extractAudioSnippet_rev1_ok:
  assumes "extractAudioSnippet_rev1 env url t d w = (Inr q, w')"
  shows "q = snippetPath (now env) \<and> files w' (tempAudioPath (now env)) = None"
  using assms
proof (cases rule: extractAudioSnippet_rev1_cases)
  case (ok q0)
  then show ?thesis using download_and_trim_rev1_ok by blast
next
  case (failed m0 w0)
  then show ?thesis by simp
qed

lemma extractAudioSnippet_rev1_kept:
  assumes "extractAudioSnippet_rev1 env url t d w = (r, w')" and "r \<noteq> Inr p"
  shows "files w' p = None \<or> files w' p = files w p"
proof (cases r)
  case (Inl m)
  with assms(1) extractAudioSnippet_rev1_failed [of env url t d w m w']
    extractAudioSnippet_rev1_other [of env url t d w r w' p]
  show ?thesis by blast
next
  case (Inr q)
  with assms extractAudioSnippet_rev1_ok [of env url t d w q w']
    extractAudioSnippet_rev1_other [of env url t d w r w' p]
  show ?thesis by blast
qed

lemma files_searchListenNotes_rev1:
  "searchListenNotes_rev1 env title showName w = (r, w') \<Longrightarrow> files w' = files w"
  by (auto simp: searchListenNotes_rev1_def Let_def split: outcome.splits list.splits)

lemma files_transcribeWithWhisper_rev1:
  "transcribeWithWhisper_rev1 env p w = (r, w') \<Longrightarrow> files w' = files w"
  by (auto simp: transcribeWithWhisper_rev1_def Let_def split: sum.splits outcome.splits)

lemma files_summarizeTranscript_rev1:
  "summarizeTranscript_rev1 env t title w = (r, w') \<Longrightarrow> files w' = files w"
  by (auto simp: summarizeTranscript_rev1_def Let_def split: outcome.splits)

lemma files_summarize_and_respond_rev1:
  "summarize_and_respond_rev1 env title showName ts ep tr w = (r, w') \<Longrightarrow> files w' = files w"
  by (auto simp: summarize_and_respond_rev1_def files_logToSupabase
      split: option.splits if_splits prod.splits sum.splits
      dest: files_summarizeTranscript_rev1)

lemma acquire_transcript_rev1_files:
  assumes "acquire_transcript_rev1 env ep ts w = (r, ap, w1)" and "ap \<noteq> Some p"
  shows "files w1 p = None \<or> files w1 p = files w p"
proof -
  obtain tr w2 where e: "embedded_transcript env ep ts w = (tr, w2)"
    by (cases "embedded_transcript env ep ts w")
  then have f2: "files w2 = files w" by (rule files_embedded_transcript)
  show ?thesis
  proof (cases "str_truthy tr")
    case True
    with assms e f2 show ?thesis by (simp add: acquire_transcript_rev1_def)
  next
    case False
    show ?thesis
    proof (cases "str_truthy (e_audioUrl ep)")
      case noaudio: False
      with assms e False f2 show ?thesis by (simp add: acquire_transcript_rev1_def)
    next
      case audio: True
      obtain xr w3 where
        x: "extractAudioSnippet_rev1 env (str_or (e_audioUrl ep) []) ts 30 w2 = (xr, w3)"
        by (cases "extractAudioSnippet_rev1 env (str_or (e_audioUrl ep) []) ts 30 w2")
      show ?thesis
      proof (cases xr)
        case (Inl m)
        then have "xr \<noteq> Inr p" by simp
        with x have "files w3 p = None \<or> files w3 p = files w2 p"
          by (rule extractAudioSnippet_rev1_kept)
        with assms e False audio x Inl f2 show ?thesis
          by (simp add: acquire_transcript_rev1_def)
      next
        case xok: (Inr q)
        obtain tr4 w4 where t: "transcribeWithWhisper_rev1 env q w3 = (tr4, w4)"
          by (cases "transcribeWithWhisper_rev1 env q w3")
        then have f4: "files w4 = files w3" by (rule files_transcribeWithWhisper_rev1)
        from assms e False audio x xok t
        have "ap = Some q" "w1 = w4"
          by (cases tr4; simp add: acquire_transcript_rev1_def)+
        with assms(2) have "xr \<noteq> Inr p" using xok by auto
        with x have "files w3 p = None \<or> files w3 p = files w2 p"
          by (rule extractAudioSnippet_rev1_kept)
        with f4 f2 \<open>w1 = w4\<close> show ?thesis by simp
      qed
    qed
  qed
qed

lemma process_insight_try_rev1_files:
  assumes "process_insight_try_rev1 env title showName ts w = (r, ap, w1)" and "ap \<noteq> Some p"
  shows "files w1 p = None \<or> files w1 p = files w p"
proof -
  obtain sr ws where s: "searchListenNotes_rev1 env title (str_or showName []) w = (sr, ws)"
    by (cases "searchListenNotes_rev1 env title (str_or showName []) w")
  then have fs: "files ws = files w" by (rule files_searchListenNotes_rev1)
  show ?thesis
  proof (cases sr)
    case (Inl m)
    with assms s fs show ?thesis by (simp add: process_insight_try_rev1_def)
  next
    case (Inr found)
    show ?thesis
    proof (cases found)
      case None
      with assms s fs Inr show ?thesis
        by (auto simp: process_insight_try_rev1_def files_logToSupabase)
    next
      case (Some ep)
      obtain ar ap2 w2 where a: "acquire_transcript_rev1 env ep ts ws = (ar, ap2, w2)"
        by (cases "acquire_transcript_rev1 env ep ts ws")
      have k: "ap2 \<noteq> Some p \<Longrightarrow> files w2 p = None \<or> files w2 p = files w p"
        using acquire_transcript_rev1_files [OF a] fs by simp
      show ?thesis
      proof (cases ar)
        case (Inl m)
        with assms s Inr Some a k show ?thesis by (simp add: process_insight_try_rev1_def)
      next
        case inner: (Inr v)
        show ?thesis
        proof (cases v)
          case (Inl resp)
          with assms s Inr Some a inner k show ?thesis by (simp add: process_insight_try_rev1_def)
        next
          case got: (Inr tr)
          obtain r3 w3 where
            f: "summarize_and_respond_rev1 env title showName ts ep tr w2 = (r3, w3)"
            by (cases "summarize_and_respond_rev1 env title showName ts ep tr w2")
          then have "files w3 = files w2" by (rule files_summarize_and_respond_rev1)
          with assms s Inr Some a inner got f k show ?thesis
            by (simp add: process_insight_try_rev1_def)
        qed
      qed
    qed
  qed
qed

lemma process_insight_rev1_files:
  "files (snd (process_insight_rev1 env body w)) p = None \<or>
   files (snd (process_insight_rev1 env body w)) p = files w p"
proof (cases "str_truthy (b_title body)")
  case False
  then show ?thesis by (simp add: process_insight_rev1_def)
next
  case True
  define ts where "ts = (case parseInt (b_timestamp body) of Some n \<Rightarrow> n | None \<Rightarrow> 0)"
  obtain r ap w1 where
    t: "process_insight_try_rev1 env (str_or (b_title body) []) (b_showName body) ts w = (r, ap, w1)"
    by (cases "process_insight_try_rev1 env (str_or (b_title body) []) (b_showName body) ts w")
  have w2: "snd (process_insight_rev1 env body w)
              = (case ap of Some q \<Rightarrow> cleanupTempFiles [q] w1 | None \<Rightarrow> w1)"
    using True t by (simp add: process_insight_rev1_def ts_def Let_def)
  show ?thesis
  proof (cases "ap = Some p")
    case True
    with w2 show ?thesis by (simp add: files_fs_unlink)
  next
    case False
    with t have "files w1 p = None \<or> files w1 p = files w p"
      by (rule process_insight_try_rev1_files)
    with w2 False show ?thesis
      by (cases ap) (auto simp: files_fs_unlink)
  qed
qed

text \<open>
  C1. Whatever a run of the handler answers, every file that is on disk when the handler
  completes was there before the run, unchanged: no file that the run created (the
  downloaded full-length file, the trimmed snippet) remains. This holds for both
  revisions, for every reply of the services and subprocesses. A subprocess is taken to
  write its output path only, and unlinking an existing file to succeed.
\<close>

theorem temp_files_removed:
  "files (snd (process_insight env body w)) \<subseteq>\<^sub>m files w \<and>
   files (snd (process_insight_rev1 env body w)) \<subseteq>\<^sub>m files w"
proof -
  have a: "files (snd (process_insight env body w)) \<subseteq>\<^sub>m files w"
    unfolding map_le_def
  proof
    fix p assume "p \<in> dom (files (snd (process_insight env body w)))"
    then have "files (snd (process_insight env body w)) p \<noteq> None" by (simp add: dom_def)
    with process_insight_files [of env body w p]
    show "files (snd (process_insight env body w)) p = files w p" by blast
  qed
  have b: "files (snd (process_insight_rev1 env body w)) \<subseteq>\<^sub>m files w"
    unfolding map_le_def
  proof
    fix p assume "p \<in> dom (files (snd (process_insight_rev1 env body w)))"
    then have "files (snd (process_insight_rev1 env body w)) p \<noteq> None" by (simp add: dom_def)
    with process_insight_rev1_files [of env body w p]
    show "files (snd (process_insight_rev1 env body w)) p = files w p" by blast
  qed
  from a b show ?thesis ..
qed

theorem temp_files_removed_witness:
  "files (snd (extractAudioSnippet audio_env ''https://cdn.example/ep1.mp3'' 95 30 empty_world))
     (snippetPath 1700000000000) = Some 60000 \<and>
   res_status (fst (process_insight audio_env sample_body empty_world)) = 200 \<and>
   files (snd (process_insight audio_env sample_body empty_world)) = Map.empty \<and>
   files (snd (process_insight_rev1 audio_env sample_body empty_world)) = Map.empty"
proof -
  have e: "files empty_world = Map.empty"
    by (simp add: empty_world_def)
  have a: "files (snd (extractAudioSnippet audio_env ''https://cdn.example/ep1.mp3'' 95 30
                         empty_world)) (snippetPath 1700000000000) = Some 60000"
    by code_simp
  have b: "res_status (fst (process_insight audio_env sample_body empty_world)) = 200"
    by code_simp
  from temp_files_removed [of audio_env sample_body empty_world]
  have "files (snd (process_insight audio_env sample_body empty_world)) \<subseteq>\<^sub>m Map.empty"
    and "files (snd (process_insight_rev1 audio_env sample_body empty_world)) \<subseteq>\<^sub>m Map.empty"
    unfolding e by simp_all
  then have "files (snd (process_insight audio_env sample_body empty_world)) = Map.empty"
    and "files (snd (process_insight_rev1 audio_env sample_body empty_world)) = Map.empty"
    by (metis map_le_antisym map_le_empty)+
  with a b show ?thesis by simp
qed

section \<open>Properties of the summarizer's parser\<close>

text \<open>
  C3. The claim says that the marker of every kept line is stripped. For a numbered list
  the code strips one character only: the replacement pattern is a single character class
  followed by white space, so of the marker \<^verbatim>\<open>1.\<close> only the digit goes and the full stop
  stays at the head of the bullet. Both revisions behave so on the reply
  \<^verbatim>\<open>1. Alpha\\n2. Beta\\n3. Gamma\<close>.
\<close>

theorem parse_numbered_keeps_full_stop:
  "parse_bullet_points
     (''1. Alpha'' @ [CHR 0x0A] @ ''2. Beta'' @ [CHR 0x0A] @ ''3. Gamma'')
     = [''. Alpha'', ''. Beta'', ''. Gamma''] \<and>
   parse_bullet_points_rev1
     (''1. Alpha'' @ [CHR 0x0A] @ ''2. Beta'' @ [CHR 0x0A] @ ''3. Gamma'')
     = [''. Alpha'', ''. Beta'', ''. Gamma'']"
  by code_simp

section \<open>Properties of the audio fetcher\<close>

lemma calls_cleanupTempFiles: "calls (cleanupTempFiles ps w) = calls w"
  by (induction ps arbitrary: w) (auto simp: fs_unlink_def split: option.splits)

text \<open>
  C5 (as amended). In the later revision, when the download exits successfully and leaves
  a file of fewer than 10000 bytes, \<^verbatim>\<open>extractAudioSnippet\<close> throws
  \<^verbatim>\<open>Failed to extract audio snippet: Downloaded file too small\<close>; when the error reaches
  the caller neither temporary file exists, and the transcoder was never started. The
  earlier revision has no size check: when yt-dlp exits successfully, whatever the size of
  the file it leaves, that file is renamed to the snippet and returned as a success.
\<close>

theorem undersized_download:
  "(n < 10000 \<and> exit_error (curl_run env) = None \<and> written (curl_run env) = Some n \<longrightarrow>
      (\<exists>w'. extractAudioSnippet env audioUrl t d w
              = (Inl ''Failed to extract audio snippet: Downloaded file too small'', w') \<and>
            files w' (fullAudioPath (now env)) = None \<and>
            files w' (snippetPath (now env)) = None \<and>
            calls w' = calls w @ [ExecCall (curlCmd (fullAudioPath (now env)) audioUrl)])) \<and>
   (exit_error (ytdlp_run env) = None \<and> written (ytdlp_run env) = Some n \<longrightarrow>
      (\<exists>w'. extractAudioSnippet_rev1 env audioUrl t d w
              = (Inr (snippetPath (now env)), w') \<and>
            files w' (snippetPath (now env)) = Some n))"
proof (intro conjI impI)
  assume h: "n < 10000 \<and> exit_error (curl_run env) = None \<and> written (curl_run env) = Some n"
  have b: "download_and_trim env audioUrl (max 0 (t - 5)) (d + 10) (now env) w
             = (Inl ''Downloaded file too small'',
                snd (execAsync (curlCmd (fullAudioPath (now env)) audioUrl)
                       (fullAudioPath (now env)) (curl_run env) w))"
    using h by (simp add: download_and_trim_def execAsync_def fs_stat_def)
  show "\<exists>w'. extractAudioSnippet env audioUrl t d w
                = (Inl ''Failed to extract audio snippet: Downloaded file too small'', w') \<and>
              files w' (fullAudioPath (now env)) = None \<and>
              files w' (snippetPath (now env)) = None \<and>
              calls w' = calls w @ [ExecCall (curlCmd (fullAudioPath (now env)) audioUrl)]"
    by (simp add: extractAudioSnippet_def Let_def b files_cleanupTempFiles
          calls_cleanupTempFiles execAsync_def del: cleanupTempFiles.simps)
next
  assume h: "exit_error (ytdlp_run env) = None \<and> written (ytdlp_run env) = Some n"
  then show "\<exists>w'. extractAudioSnippet_rev1 env audioUrl t d w
                     = (Inr (snippetPath (now env)), w') \<and>
                   files w' (snippetPath (now env)) = Some n"
    by (simp add: extractAudioSnippet_rev1_def Let_def download_and_trim_rev1_def
          execAsync_def fs_rename_def)
qed

theorem undersized_download_witness:
  "(512::int) < 10000 \<and>
   exit_error (curl_run small_download_env) = None \<and>
   written (curl_run small_download_env) = Some 512 \<and>
   fst (extractAudioSnippet small_download_env ''https://cdn.example/ep1.mp3'' 95 30 empty_world)
     = Inl ''Failed to extract audio snippet: Downloaded file too small'' \<and>
   files (snd (extractAudioSnippet small_download_env ''https://cdn.example/ep1.mp3'' 95 30
                 empty_world)) (fullAudioPath (now small_download_env)) = None \<and>
   exit_error (ytdlp_run small_download_env) = None \<and>
   written (ytdlp_run small_download_env) = Some 5 \<and>
   fst (extractAudioSnippet_rev1 small_download_env ''https://cdn.example/ep1.mp3'' 95 30
          empty_world) = Inr (snippetPath (now small_download_env))"
proof -
  have c: "exit_error (curl_run small_download_env) = None \<and>
           written (curl_run small_download_env) = Some 512"
    by (simp add: small_download_env_def)
  have y: "exit_error (ytdlp_run small_download_env) = None \<and>
           written (ytdlp_run small_download_env) = Some 5"
    by (simp add: small_download_env_def audio_env_def)
  have n1: "(512::int) < 10000" and n2: "(5::int) < 10000" by simp_all
  from undersized_download [of 512 small_download_env "''https://cdn.example/ep1.mp3''" 95 30
      empty_world] c n1
  obtain w' where
    "extractAudioSnippet small_download_env ''https://cdn.example/ep1.mp3'' 95 30 empty_world
       = (Inl ''Failed to extract audio snippet: Downloaded file too small'', w')"
    "files w' (fullAudioPath (now small_download_env)) = None"
    by blast
  moreover
  from undersized_download [of 5 small_download_env "''https://cdn.example/ep1.mp3''" 95 30
      empty_world] y
  obtain w'' where
    "extractAudioSnippet_rev1 small_download_env ''https://cdn.example/ep1.mp3'' 95 30 empty_world
       = (Inr (snippetPath (now small_download_env)), w'')"
    by blast
  ultimately show ?thesis using c y by simp
qed

text \<open>
  C5 (as stated) fails on the earlier revision: yt-dlp exits successfully and leaves a
  file of 5 bytes, and \<^verbatim>\<open>extractAudioSnippet\<close> returns the path of that file instead of
  throwing; the file is still on disk when the function returns.
\<close>

theorem undersized_download_rev1_counterexample:
  "exit_error (ytdlp_run audio_env) = None \<and>
   written (ytdlp_run audio_env) = Some 5 \<and>
   fst (extractAudioSnippet_rev1 audio_env ''https://cdn.example/ep1.mp3'' 95 30 empty_world)
     = Inr ''temp/snippet_1700000000000.mp3'' \<and>
   files (snd (extractAudioSnippet_rev1 audio_env ''https://cdn.example/ep1.mp3'' 95 30
                 empty_world)) ''temp/snippet_1700000000000.mp3'' = Some 5"
  by code_simp

section \<open>Properties of the handler\<close>

lemma sc_append [simp]:
  "summarizer_calls (w\<lparr>calls := calls w @ [c]\<rparr>) = summarizer_calls w + (if is_completion c then 1 else 0)"
  by (simp add: summarizer_calls_def)

lemma sc_files [simp]: "summarizer_calls (w\<lparr>files := f\<rparr>) = summarizer_calls w"
  by (simp add: summarizer_calls_def)

lemma sc_execAsync [simp]: "summarizer_calls (snd (execAsync c out r w)) = summarizer_calls w"
  by (simp add: execAsync_def summarizer_calls_def)

lemma sc_fs_unlink [simp]: "summarizer_calls (snd (fs_unlink p w)) = summarizer_calls w"
  by (simp add: fs_unlink_def split: option.splits)

lemma sc_fs_rename [simp]: "summarizer_calls (snd (fs_rename a b w)) = summarizer_calls w"
  by (simp add: fs_rename_def split: option.splits)

lemma sc_cleanupTempFiles [simp]: "summarizer_calls (cleanupTempFiles ps w) = summarizer_calls w"
  by (induction ps arbitrary: w) simp_all

lemma sc_download_and_trim [simp]:
  "summarizer_calls (snd (download_and_trim env url s tot ts w)) = summarizer_calls w"
  by (simp add: download_and_trim_def split_beta Let_def split: sum.splits)

lemma sc_download_and_trim_rev1 [simp]:
  "summarizer_calls (snd (download_and_trim_rev1 env url s tot ts w)) = summarizer_calls w"
  by (simp add: download_and_trim_rev1_def split_beta Let_def split: sum.splits)

lemma sc_extractAudioSnippet [simp]:
  "summarizer_calls (snd (extractAudioSnippet env url t d w)) = summarizer_calls w"
  by (simp add: extractAudioSnippet_def split_beta Let_def del: cleanupTempFiles.simps
      split: sum.splits)

lemma sc_extractAudioSnippet_rev1 [simp]:
  "summarizer_calls (snd (extractAudioSnippet_rev1 env url t d w)) = summarizer_calls w"
  by (simp add: extractAudioSnippet_rev1_def split_beta Let_def del: cleanupTempFiles.simps
      split: sum.splits)

lemma sc_searchListenNotes [simp]:
  "summarizer_calls (snd (searchListenNotes env title sn w)) = summarizer_calls w"
  "summarizer_calls (snd (searchListenNotes_rev1 env title sn w)) = summarizer_calls w"
  by (simp_all add: searchListenNotes_def searchListenNotes_rev1_def Let_def
      split: outcome.splits list.splits)

lemma sc_embedded_transcript [simp]:
  "summarizer_calls (snd (embedded_transcript env ep ts w)) = summarizer_calls w"
  by (simp add: embedded_transcript_def getEpisodeTranscript_def Let_def
      split: outcome.splits option.splits)

lemma sc_transcribeWithWhisper [simp]:
  "summarizer_calls (snd (transcribeWithWhisper env p w)) = summarizer_calls w"
  "summarizer_calls (snd (transcribeWithWhisper_rev1 env p w)) = summarizer_calls w"
  by (simp_all add: transcribeWithWhisper_def transcribeWithWhisper_rev1_def Let_def
      split: sum.splits outcome.splits)

lemma sc_acquire_transcript [simp]:
  "summarizer_calls (snd (snd (acquire_transcript env ep ts w))) = summarizer_calls w"
  "summarizer_calls (snd (snd (acquire_transcript_rev1 env ep ts w))) = summarizer_calls w"
  by (simp_all add: acquire_transcript_def acquire_transcript_rev1_def split_beta
      split: sum.splits)

text \<open>
  C9. When the \<^verbatim>\<open>title\<close> field of the request is missing or empty, the handler of either
  revision answers 400 with the message \<^verbatim>\<open>Title is required\<close> and leaves the world as it
  was: no search, download, transcription, summarization or logging call is made, and no
  file is touched.
\<close>

theorem missing_title_rejected:
  assumes "b_title body = None \<or> b_title body = Some []"
  shows "process_insight env body w = (error_response 400 ''Title is required'', w) \<and>
         process_insight_rev1 env body w = (error_response 400 ''Title is required'', w)"
  using assms by (auto simp: process_insight_def process_insight_rev1_def str_truthy_def)

theorem missing_title_rejected_witness:
  "(b_title untitled_body = None \<or> b_title untitled_body = Some []) \<and>
   res_status (fst (process_insight audio_env untitled_body empty_world)) = 400 \<and>
   calls (snd (process_insight audio_env untitled_body empty_world)) = [] \<and>
   res_status (fst (process_insight_rev1 audio_env untitled_body empty_world)) = 400 \<and>
   calls (snd (process_insight_rev1 audio_env untitled_body empty_world)) = []"
proof -
  have h: "b_title untitled_body = None \<or> b_title untitled_body = Some []"
    by (simp add: untitled_body_def)
  from missing_title_rejected [OF h, of audio_env empty_world]
  show ?thesis using h by (simp add: error_response_def empty_world_def)
qed

text \<open>
  C2 (as amended). For a request with a non-empty title, when the search returns no
  candidates, the later revision answers 200 with \<^verbatim>\<open>success\<close> true, \<^verbatim>\<open>data.manualMode\<close>
  true, the caller's title, and \<^verbatim>\<open>transcript\<close> and \<^verbatim>\<open>summary\<close> null. The earlier revision
  answers 404 with \<^verbatim>\<open>success\<close> false and the message
  \<^verbatim>\<open>Could not find podcast episode in Listen Notes\<close>.
\<close>

theorem not_found_manual_mode:
  assumes "str_truthy (b_title body)" and "search_reply env = Returned []"
  shows "(\<exists>d. fst (process_insight env body w)
                = \<lparr>res_status = 200, res_success = True, res_data = Some d,
                   res_message = None\<rparr> \<and>
              d_manualMode d = Some True \<and> d_transcript d = None \<and> d_summary d = None \<and>
              Some (d_episodeTitle d) = b_title body) \<and>
         fst (process_insight_rev1 env body w)
           = error_response 404 ''Could not find podcast episode in Listen Notes''"
proof -
  obtain title where t: "b_title body = Some title" "title \<noteq> []"
    using assms(1) by (auto simp: str_truthy_def split: option.splits)
  have s: "fst (searchListenNotes env title sn w) = Inr None"
       "fst (searchListenNotes_rev1 env title sn w) = Inr None" for sn
    using assms(2) by (simp_all add: searchListenNotes_def searchListenNotes_rev1_def Let_def)
  have "fst (process_insight env body w)
          = manual_response title (b_showName body)
              (case parseInt (b_timestamp body) of Some n \<Rightarrow> n | None \<Rightarrow> 0)"
    using t s(1) [of "str_or (b_showName body) []"]
    by (simp add: process_insight_def str_truthy_def str_or_def process_insight_try_def
          Let_def split_beta)
  moreover have "fst (process_insight_rev1 env body w)
          = error_response 404 ''Could not find podcast episode in Listen Notes''"
    using t s(2) [of "str_or (b_showName body) []"]
    by (simp add: process_insight_rev1_def str_truthy_def str_or_def
          process_insight_try_rev1_def Let_def split_beta)
  ultimately show ?thesis
    using t by (simp add: manual_response_def)
qed

theorem not_found_manual_mode_witness:
  "str_truthy (b_title sample_body) \<and> search_reply not_found_env = Returned [] \<and>
   res_status (fst (process_insight not_found_env sample_body empty_world)) = 200 \<and>
   res_success (fst (process_insight not_found_env sample_body empty_world)) \<and>
   res_status (fst (process_insight_rev1 not_found_env sample_body empty_world)) = 404"
proof -
  have h1: "str_truthy (b_title sample_body)"
    by (simp add: sample_body_def str_truthy_def)
  have h2: "search_reply not_found_env = Returned []"
    by (simp add: not_found_env_def)
  from not_found_manual_mode [OF h1 h2, of empty_world]
  obtain d where
    "fst (process_insight not_found_env sample_body empty_world)
       = \<lparr>res_status = 200, res_success = True, res_data = Some d, res_message = None\<rparr>"
    "fst (process_insight_rev1 not_found_env sample_body empty_world)
       = error_response 404 ''Could not find podcast episode in Listen Notes''"
    by blast
  with h1 h2 show ?thesis by (simp add: error_response_def)
qed

text \<open>
  C2 (as stated) fails on the earlier revision: with a non-empty title and an empty result
  list the response has status 404, \<^verbatim>\<open>success\<close> false and no data.
\<close>

theorem not_found_rev1_counterexample:
  "str_truthy (b_title sample_body) \<and> search_reply not_found_env = Returned [] \<and>
   res_status (fst (process_insight_rev1 not_found_env sample_body empty_world)) = 404 \<and>
   \<not> res_success (fst (process_insight_rev1 not_found_env sample_body empty_world)) \<and>
   res_data (fst (process_insight_rev1 not_found_env sample_body empty_world)) = None"
  by code_simp

text \<open>
  C8. In either revision, when the episode is found and the transcript that reaches the
  handler's check (the segment of the embedded transcript, or what the transcription
  returned) is empty or consists of white space only, the handler answers 500 with the
  message \<^verbatim>\<open>Failed to get transcript for this segment\<close>, and the run makes no call to the
  language model.
\<close>

theorem blank_transcript_fails_before_summarizer:
  assumes "js_trim t = []" and "b_title body = Some title" and "title \<noteq> []"
  shows
    "(fst (searchListenNotes env title (str_or (b_showName body) []) w) = Inr (Some ep) \<and>
      fst (acquire_transcript env ep
             (case parseInt (b_timestamp body) of Some n \<Rightarrow> n | None \<Rightarrow> 0)
             (snd (searchListenNotes env title (str_or (b_showName body) []) w)))
        = Inr (Inr (Some t)) \<longrightarrow>
      fst (process_insight env body w)
        = error_response 500 ''Failed to get transcript for this segment'' \<and>
      summarizer_calls (snd (process_insight env body w)) = summarizer_calls w) \<and>
     (fst (searchListenNotes_rev1 env title (str_or (b_showName body) []) w) = Inr (Some ep) \<and>
      fst (acquire_transcript_rev1 env ep
             (case parseInt (b_timestamp body) of Some n \<Rightarrow> n | None \<Rightarrow> 0)
             (snd (searchListenNotes_rev1 env title (str_or (b_showName body) []) w)))
        = Inr (Inr (Some t)) \<longrightarrow>
      fst (process_insight_rev1 env body w)
        = error_response 500 ''Failed to get transcript for this segment'' \<and>
      summarizer_calls (snd (process_insight_rev1 env body w)) = summarizer_calls w)"
proof (intro conjI impI)
  define ts where "ts = (case parseInt (b_timestamp body) of Some n \<Rightarrow> n | None \<Rightarrow> 0)"
  define sn where "sn = str_or (b_showName body) []"
  assume h: "fst (searchListenNotes env title (str_or (b_showName body) []) w) = Inr (Some ep) \<and>
      fst (acquire_transcript env ep
             (case parseInt (b_timestamp body) of Some n \<Rightarrow> n | None \<Rightarrow> 0)
             (snd (searchListenNotes env title (str_or (b_showName body) []) w)))
        = Inr (Inr (Some t))"
  obtain w1 where s: "searchListenNotes env title sn w = (Inr (Some ep), w1)"
    using h by (cases "searchListenNotes env title sn w") (simp add: sn_def)
  obtain ap w2 where a: "acquire_transcript env ep ts w1 = (Inr (Inr (Some t)), ap, w2)"
    using h s by (cases "acquire_transcript env ep ts w1") (auto simp: sn_def ts_def)
  have c1: "summarizer_calls w1 = summarizer_calls w"
    using sc_searchListenNotes(1) [of env title sn w] s by simp
  have c2: "summarizer_calls w2 = summarizer_calls w1"
    using sc_acquire_transcript(1) [of env ep ts w1] a by simp
  have f: "summarize_and_respond env title (b_showName body) ts ep (Some t) w2
             = (Inr (error_response 500 ''Failed to get transcript for this segment''), w2)"
    using assms(1) by (simp add: summarize_and_respond_def)
  have p: "process_insight_try env title (b_showName body) ts w
             = (Inr (error_response 500 ''Failed to get transcript for this segment''), ap, w2)"
    using s a f by (simp add: process_insight_try_def sn_def)
  have r: "process_insight env body w
             = (error_response 500 ''Failed to get transcript for this segment'',
                (case ap of Some q \<Rightarrow> cleanupTempFiles [q] w2 | None \<Rightarrow> w2))"
    using assms(2,3) p
    by (simp add: process_insight_def str_truthy_def str_or_def ts_def Let_def
          del: cleanupTempFiles.simps)
  show "fst (process_insight env body w)
          = error_response 500 ''Failed to get transcript for this segment''"
    using r by simp
  show "summarizer_calls (snd (process_insight env body w)) = summarizer_calls w"
    using r c1 c2 by (cases ap) (simp_all del: cleanupTempFiles.simps)
next
  define ts where "ts = (case parseInt (b_timestamp body) of Some n \<Rightarrow> n | None \<Rightarrow> 0)"
  define sn where "sn = str_or (b_showName body) []"
  assume h: "fst (searchListenNotes_rev1 env title (str_or (b_showName body) []) w)
               = Inr (Some ep) \<and>
      fst (acquire_transcript_rev1 env ep
             (case parseInt (b_timestamp body) of Some n \<Rightarrow> n | None \<Rightarrow> 0)
             (snd (searchListenNotes_rev1 env title (str_or (b_showName body) []) w)))
        = Inr (Inr (Some t))"
  obtain w1 where s: "searchListenNotes_rev1 env title sn w = (Inr (Some ep), w1)"
    using h by (cases "searchListenNotes_rev1 env title sn w") (simp add: sn_def)
  obtain ap w2 where a: "acquire_transcript_rev1 env ep ts w1 = (Inr (Inr (Some t)), ap, w2)"
    using h s by (cases "acquire_transcript_rev1 env ep ts w1") (auto simp: sn_def ts_def)
  have c1: "summarizer_calls w1 = summarizer_calls w"
    using sc_searchListenNotes(2) [of env title sn w] s by simp
  have c2: "summarizer_calls w2 = summarizer_calls w1"
    using sc_acquire_transcript(2) [of env ep ts w1] a by simp
  have f: "summarize_and_respond_rev1 env title (b_showName body) ts ep (Some t) w2
             = (Inr (error_response 500 ''Failed to get transcript for this segment''), w2)"
    using assms(1) by (simp add: summarize_and_respond_rev1_def)
  have p: "process_insight_try_rev1 env title (b_showName body) ts w
             = (Inr (error_response 500 ''Failed to get transcript for this segment''), ap, w2)"
    using s a f by (simp add: process_insight_try_rev1_def sn_def)
  have r: "process_insight_rev1 env body w
             = (error_response 500 ''Failed to get transcript for this segment'',
                (case ap of Some q \<Rightarrow> cleanupTempFiles [q] w2 | None \<Rightarrow> w2))"
    using assms(2,3) p
    by (simp add: process_insight_rev1_def str_truthy_def str_or_def ts_def Let_def
          del: cleanupTempFiles.simps)
  show "fst (process_insight_rev1 env body w)
          = error_response 500 ''Failed to get transcript for this segment''"
    using r by simp
  show "summarizer_calls (snd (process_insight_rev1 env body w)) = summarizer_calls w"
    using r c1 c2 by (cases ap) (simp_all del: cleanupTempFiles.simps)
qed

theorem blank_transcript_fails_before_summarizer_witness:
  "js_trim [CHR '' '', CHR 0x0A, CHR '' ''] = [] \<and>
   b_title sample_body = Some ''My title'' \<and>
   fst (searchListenNotes blank_speech_env ''My title'' (str_or (b_showName sample_body) [])
          empty_world) = Inr (Some (to_episode found_episode ''My show'')) \<and>
   fst (acquire_transcript blank_speech_env (to_episode found_episode ''My show'')
          (case parseInt (b_timestamp sample_body) of Some n \<Rightarrow> n | None \<Rightarrow> 0)
          (snd (searchListenNotes blank_speech_env ''My title''
                  (str_or (b_showName sample_body) []) empty_world)))
     = Inr (Inr (Some [CHR '' '', CHR 0x0A, CHR '' ''])) \<and>
   res_status (fst (process_insight blank_speech_env sample_body empty_world)) = 500 \<and>
   summarizer_calls (snd (process_insight blank_speech_env sample_body empty_world)) = 0 \<and>
   fst (searchListenNotes_rev1 blank_speech_env ''My title''
          (str_or (b_showName sample_body) []) empty_world)
     = Inr (Some (to_episode found_episode ''My show'')) \<and>
   fst (acquire_transcript_rev1 blank_speech_env (to_episode found_episode ''My show'')
          (case parseInt (b_timestamp sample_body) of Some n \<Rightarrow> n | None \<Rightarrow> 0)
          (snd (searchListenNotes_rev1 blank_speech_env ''My title''
                  (str_or (b_showName sample_body) []) empty_world)))
     = Inr (Inr (Some [CHR '' '', CHR 0x0A, CHR '' ''])) \<and>
   res_status (fst (process_insight_rev1 blank_speech_env sample_body empty_world)) = 500 \<and>
   summarizer_calls (snd (process_insight_rev1 blank_speech_env sample_body empty_world)) = 0"
proof -
  have b: "js_trim [CHR '' '', CHR 0x0A, CHR '' ''] = []"
    by code_simp
  have t: "b_title sample_body = Some ''My title''" and n: "''My title'' \<noteq> []"
    by (simp_all add: sample_body_def)
  have s2: "fst (searchListenNotes blank_speech_env ''My title''
                   (str_or (b_showName sample_body) []) empty_world)
              = Inr (Some (to_episode found_episode ''My show''))"
    by code_simp
  have a2: "fst (acquire_transcript blank_speech_env (to_episode found_episode ''My show'')
                   (case parseInt (b_timestamp sample_body) of Some n \<Rightarrow> n | None \<Rightarrow> 0)
                   (snd (searchListenNotes blank_speech_env ''My title''
                           (str_or (b_showName sample_body) []) empty_world)))
              = Inr (Inr (Some [CHR '' '', CHR 0x0A, CHR '' '']))"
    by code_simp
  have s1: "fst (searchListenNotes_rev1 blank_speech_env ''My title''
                   (str_or (b_showName sample_body) []) empty_world)
              = Inr (Some (to_episode found_episode ''My show''))"
    by code_simp
  have a1: "fst (acquire_transcript_rev1 blank_speech_env (to_episode found_episode ''My show'')
                   (case parseInt (b_timestamp sample_body) of Some n \<Rightarrow> n | None \<Rightarrow> 0)
                   (snd (searchListenNotes_rev1 blank_speech_env ''My title''
                           (str_or (b_showName sample_body) []) empty_world)))
              = Inr (Inr (Some [CHR '' '', CHR 0x0A, CHR '' '']))"
    by code_simp
  have z: "summarizer_calls empty_world = 0"
    by (simp add: summarizer_calls_def empty_world_def)
  from blank_transcript_fails_before_summarizer
         [OF b t n, of blank_speech_env empty_world "to_episode found_episode ''My show''"]
       s2 a2 s1 a1
  have "fst (process_insight blank_speech_env sample_body empty_world)
          = error_response 500 ''Failed to get transcript for this segment''"
    and "summarizer_calls (snd (process_insight blank_speech_env sample_body empty_world))
          = summarizer_calls empty_world"
    and "fst (process_insight_rev1 blank_speech_env sample_body empty_world)
          = error_response 500 ''Failed to get transcript for this segment''"
    and "summarizer_calls (snd (process_insight_rev1 blank_speech_env sample_body empty_world))
          = summarizer_calls empty_world"
    by blast+
  with b t s2 a2 s1 a1 z show ?thesis
    by (simp add: error_response_def)
qed

subsection \<open>What a response reports\<close>

lemma error_response_data [simp]: "res_data (error_response c m) = None"
  by (simp add: error_response_def)

lemma summarize_and_respond_data:
  assumes "fst (summarize_and_respond env title sn ts ep tr w) = Inr resp"
    and "res_data resp = Some d"
  shows "d_episodeTitle d = title \<and> d_showName d = str_or sn (e_showName ep) \<and>
         d_timestampSeconds d = ts \<and> d_manualMode d = None"
  using assms
  by (auto simp: summarize_and_respond_def split_beta
      split: option.splits if_splits sum.splits)

lemma summarize_and_respond_rev1_data:
  assumes "fst (summarize_and_respond_rev1 env title sn ts ep tr w) = Inr resp"
    and "res_data resp = Some d"
  shows "d_episodeTitle d = e_title ep \<and> d_showName d = e_showName ep \<and>
         d_timestampSeconds d = ts \<and> d_manualMode d = None"
  using assms
  by (auto simp: summarize_and_respond_rev1_def split_beta
      split: option.splits if_splits sum.splits)

lemma acquire_transcript_early:
  "fst (acquire_transcript env ep ts w) = Inr (Inl resp) \<Longrightarrow> res_data resp = None"
  "fst (acquire_transcript_rev1 env ep ts w) = Inr (Inl resp) \<Longrightarrow> res_data resp = None"
  by (auto simp: acquire_transcript_def acquire_transcript_rev1_def split_beta
      split: if_splits sum.splits)

lemma process_insight_try_data:
  assumes "fst (process_insight_try env title sn ts w) = Inr resp"
    and "res_data resp = Some d"
  shows "d_timestampSeconds d = ts \<and> d_episodeTitle d = title \<and>
         (d_manualMode d \<noteq> Some True \<longrightarrow>
            (\<exists>ep. fst (searchListenNotes env title (str_or sn []) w) = Inr (Some ep) \<and>
                  d_showName d = str_or sn (e_showName ep)))"
proof (cases "fst (searchListenNotes env title (str_or sn []) w)")
  case (Inl m)
  with assms show ?thesis by (simp add: process_insight_try_def split_beta)
next
  case (Inr found)
  show ?thesis
  proof (cases found)
    case None
    with assms Inr show ?thesis
      by (auto simp: process_insight_try_def split_beta manual_response_def)
  next
    case (Some ep)
    define w1 where "w1 = snd (searchListenNotes env title (str_or sn []) w)"
    show ?thesis
    proof (cases "fst (acquire_transcript env ep ts w1)")
      case (Inl m)
      with assms Inr Some show ?thesis
        by (simp add: process_insight_try_def split_beta w1_def)
    next
      case inner: (Inr v)
      show ?thesis
      proof (cases v)
        case (Inl early)
        with inner have "res_data early = None" by (simp add: acquire_transcript_early(1))
        with assms Inr Some inner Inl show ?thesis
          by (simp add: process_insight_try_def split_beta w1_def)
      next
        case got: (Inr tr)
        from assms(1) Inr Some inner got
        have "fst (summarize_and_respond env title sn ts ep tr
                     (snd (snd (acquire_transcript env ep ts w1)))) = Inr resp"
          by (simp add: process_insight_try_def split_beta w1_def)
        from summarize_and_respond_data [OF this assms(2)] Inr Some
        show ?thesis by simp
      qed
    qed
  qed
qed

lemma process_insight_try_rev1_data:
  assumes "fst (process_insight_try_rev1 env title sn ts w) = Inr resp"
    and "res_data resp = Some d"
  shows "d_timestampSeconds d = ts \<and>
         (\<exists>ep. fst (searchListenNotes_rev1 env title (str_or sn []) w) = Inr (Some ep) \<and>
               d_episodeTitle d = e_title ep \<and> d_showName d = e_showName ep)"
proof (cases "fst (searchListenNotes_rev1 env title (str_or sn []) w)")
  case (Inl m)
  with assms show ?thesis by (simp add: process_insight_try_rev1_def split_beta)
next
  case (Inr found)
  show ?thesis
  proof (cases found)
    case None
    with assms Inr show ?thesis
      by (auto simp: process_insight_try_rev1_def split_beta)
  next
    case (Some ep)
    define w1 where "w1 = snd (searchListenNotes_rev1 env title (str_or sn []) w)"
    show ?thesis
    proof (cases "fst (acquire_transcript_rev1 env ep ts w1)")
      case (Inl m)
      with assms Inr Some show ?thesis
        by (simp add: process_insight_try_rev1_def split_beta w1_def)
    next
      case inner: (Inr v)
      show ?thesis
      proof (cases v)
        case (Inl early)
        with inner have "res_data early = None" by (simp add: acquire_transcript_early(2))
        with assms Inr Some inner Inl show ?thesis
          by (simp add: process_insight_try_rev1_def split_beta w1_def)
      next
        case got: (Inr tr)
        from assms(1) Inr Some inner got
        have "fst (summarize_and_respond_rev1 env title sn ts ep tr
                     (snd (snd (acquire_transcript_rev1 env ep ts w1)))) = Inr resp"
          by (simp add: process_insight_try_rev1_def split_beta w1_def)
        from summarize_and_respond_rev1_data [OF this assms(2)] Inr Some
        show ?thesis by simp
      qed
    qed
  qed
qed

lemma process_insight_data:
  assumes "res_data (fst (process_insight env body w)) = Some d"
  shows "\<exists>title. b_title body = Some title \<and> title \<noteq> [] \<and>
           fst (process_insight_try env title (b_showName body)
                  (case parseInt (b_timestamp body) of Some n \<Rightarrow> n | None \<Rightarrow> 0) w)
             = Inr (fst (process_insight env body w))"
proof (cases "str_truthy (b_title body)")
  case False
  with assms show ?thesis by (simp add: process_insight_def)
next
  case True
  then obtain title where t: "b_title body = Some title" "title \<noteq> []"
    by (auto simp: str_truthy_def split: option.splits)
  with assms show ?thesis
    by (auto simp: process_insight_def str_truthy_def str_or_def Let_def split_beta
        split: sum.splits)
qed

lemma process_insight_rev1_data:
  assumes "res_data (fst (process_insight_rev1 env body w)) = Some d"
  shows "\<exists>title. b_title body = Some title \<and> title \<noteq> [] \<and>
           fst (process_insight_try_rev1 env title (b_showName body)
                  (case parseInt (b_timestamp body) of Some n \<Rightarrow> n | None \<Rightarrow> 0) w)
             = Inr (fst (process_insight_rev1 env body w))"
proof (cases "str_truthy (b_title body)")
  case False
  with assms show ?thesis by (simp add: process_insight_rev1_def)
next
  case True
  then obtain title where t: "b_title body = Some title" "title \<noteq> []"
    by (auto simp: str_truthy_def split: option.splits)
  with assms show ?thesis
    by (auto simp: process_insight_rev1_def str_truthy_def str_or_def Let_def split_beta
        split: sum.splits)
qed

text \<open>
  C6 (as amended). In the later revision, every response that carries data and is not a
  manual-mode response reports as \<^verbatim>\<open>episodeTitle\<close> the title the caller sent, and as
  \<^verbatim>\<open>showName\<close> the show name the caller sent when that is non-empty, otherwise the show
  name of the resolved episode. In the earlier revision every response that carries data
  reports the title and the show name of the resolved episode.
\<close>

theorem result_prefers_caller_identity:
  "(res_data (fst (process_insight env body w)) = Some d \<and> d_manualMode d \<noteq> Some True \<longrightarrow>
      b_title body = Some (d_episodeTitle d) \<and>
      (\<exists>ep. fst (searchListenNotes env (d_episodeTitle d) (str_or (b_showName body) []) w)
               = Inr (Some ep) \<and>
            d_showName d = str_or (b_showName body) (e_showName ep))) \<and>
   (res_data (fst (process_insight_rev1 env body w)) = Some d' \<longrightarrow>
      (\<exists>title ep. b_title body = Some title \<and>
            fst (searchListenNotes_rev1 env title (str_or (b_showName body) []) w)
              = Inr (Some ep) \<and>
            d_episodeTitle d' = e_title ep \<and> d_showName d' = e_showName ep))"
proof (intro conjI impI)
  assume h: "res_data (fst (process_insight env body w)) = Some d \<and> d_manualMode d \<noteq> Some True"
  then obtain title where t: "b_title body = Some title"
    and p: "fst (process_insight_try env title (b_showName body)
                   (case parseInt (b_timestamp body) of Some n \<Rightarrow> n | None \<Rightarrow> 0) w)
              = Inr (fst (process_insight env body w))"
    using process_insight_data by blast
  from process_insight_try_data [OF p] h
  have "d_episodeTitle d = title"
    and "\<exists>ep. fst (searchListenNotes env title (str_or (b_showName body) []) w) = Inr (Some ep) \<and>
              d_showName d = str_or (b_showName body) (e_showName ep)"
    by blast+
  with t show "b_title body = Some (d_episodeTitle d)"
    and "\<exists>ep. fst (searchListenNotes env (d_episodeTitle d) (str_or (b_showName body) []) w)
               = Inr (Some ep) \<and>
              d_showName d = str_or (b_showName body) (e_showName ep)"
    by simp_all
next
  assume h: "res_data (fst (process_insight_rev1 env body w)) = Some d'"
  then obtain title where t: "b_title body = Some title"
    and p: "fst (process_insight_try_rev1 env title (b_showName body)
                   (case parseInt (b_timestamp body) of Some n \<Rightarrow> n | None \<Rightarrow> 0) w)
              = Inr (fst (process_insight_rev1 env body w))"
    using process_insight_rev1_data by blast
  from process_insight_try_rev1_data [OF p h] t
  show "\<exists>title ep. b_title body = Some title \<and>
            fst (searchListenNotes_rev1 env title (str_or (b_showName body) []) w)
              = Inr (Some ep) \<and>
            d_episodeTitle d' = e_title ep \<and> d_showName d' = e_showName ep"
    by blast
qed

theorem result_prefers_caller_identity_witness:
  "map_option d_manualMode (res_data (fst (process_insight audio_env sample_body empty_world)))
     = Some None \<and>
   b_title sample_body = Some ''My title'' \<and> b_showName sample_body = Some ''My show'' \<and>
   map_option d_episodeTitle (res_data (fst (process_insight audio_env sample_body empty_world)))
     = Some ''My title'' \<and>
   map_option d_showName (res_data (fst (process_insight audio_env sample_body empty_world)))
     = Some ''My show'' \<and>
   map_option d_episodeTitle
     (res_data (fst (process_insight_rev1 audio_env sample_body empty_world)))
     = Some (e_title (to_episode found_episode ''My show''))"
proof -
  obtain d where d: "res_data (fst (process_insight audio_env sample_body empty_world)) = Some d"
    and m: "d_manualMode d = None"
  proof -
    have "map_option d_manualMode
            (res_data (fst (process_insight audio_env sample_body empty_world))) = Some None"
      by code_simp
    then show ?thesis using that by auto
  qed
  obtain d' where
    d': "res_data (fst (process_insight_rev1 audio_env sample_body empty_world)) = Some d'"
  proof -
    have "map_option d_manualMode
            (res_data (fst (process_insight_rev1 audio_env sample_body empty_world))) = Some None"
      by code_simp
    then show ?thesis using that by auto
  qed
  have b: "b_title sample_body = Some ''My title''" "b_showName sample_body = Some ''My show''"
    by (simp_all add: sample_body_def)
  have s1: "fst (searchListenNotes_rev1 audio_env ''My title'' ''My show'' empty_world)
              = Inr (Some (to_episode found_episode ''My show''))"
    by code_simp
  note th = result_prefers_caller_identity [of audio_env sample_body empty_world d d']
  have nm: "d_manualMode d \<noteq> Some True" using m by simp
  from th d nm have r12:
    "b_title sample_body = Some (d_episodeTitle d) \<and>
     (\<exists>ep. fst (searchListenNotes audio_env (d_episodeTitle d)
                   (str_or (b_showName sample_body) []) empty_world) = Inr (Some ep) \<and>
           d_showName d = str_or (b_showName sample_body) (e_showName ep))"
    by simp
  then have r1: "b_title sample_body = Some (d_episodeTitle d)" ..
  from r12 have
    "\<exists>ep. fst (searchListenNotes audio_env (d_episodeTitle d)
                  (str_or (b_showName sample_body) []) empty_world) = Inr (Some ep) \<and>
          d_showName d = str_or (b_showName sample_body) (e_showName ep)" ..
  then obtain ep where
    "fst (searchListenNotes audio_env (d_episodeTitle d)
            (str_or (b_showName sample_body) []) empty_world) = Inr (Some ep) \<and>
     d_showName d = str_or (b_showName sample_body) (e_showName ep)" ..
  then have r2: "d_showName d = str_or (b_showName sample_body) (e_showName ep)" ..
  from th d' obtain title ep1 where
    r3: "b_title sample_body = Some title"
        "fst (searchListenNotes_rev1 audio_env title
                (str_or (b_showName sample_body) []) empty_world) = Inr (Some ep1)"
        "d_episodeTitle d' = e_title ep1"
    by blast
  from r3(1) b have "title = ''My title''" by simp
  with r3(2) s1 b have e1: "ep1 = to_episode found_episode ''My show''"
    by (simp add: str_or_def)
  from r1 b have "d_episodeTitle d = ''My title''" by simp
  moreover from r2 b have "d_showName d = ''My show''" by (simp add: str_or_def)
  moreover from r3(3) e1 have "d_episodeTitle d' = e_title (to_episode found_episode ''My show'')"
    by simp
  ultimately show ?thesis using b d d' m by simp
qed

text \<open>
  C6 (as stated) fails on the earlier revision: the caller sends \<^verbatim>\<open>My title\<close> and
  \<^verbatim>\<open>My show\<close>, the run succeeds, and the result reports the resolved title and show.
\<close>

theorem result_rev1_counterexample:
  "b_title sample_body = Some ''My title'' \<and> b_showName sample_body = Some ''My show'' \<and>
   res_status (fst (process_insight_rev1 audio_env sample_body empty_world)) = 200 \<and>
   map_option d_episodeTitle
     (res_data (fst (process_insight_rev1 audio_env sample_body empty_world)))
     = Some ''Resolved title'' \<and>
   map_option d_showName
     (res_data (fst (process_insight_rev1 audio_env sample_body empty_world)))
     = Some ''Resolved show''"
  by code_simp





end
